theory Spec2Isabelle
  imports Complex_Main "HOL-Library.Sublist" "HOL-Library.Log_Nat"
begin

section \<open>JavaScript strings and numbers\<close>

text \<open>
  A JavaScript string is modelled as a \<^typ>\<open>string\<close>, one \<^typ>\<open>char\<close> per code unit, so
  the model covers the strings whose code units are below 256.

  The numbers of the importer are IEEE 754 binary64 values, type \<open>double\<close> below: NaN, the
  two infinities, and the finite values as a sign and a magnitude, so that the two zeros
  differ.  Every arithmetic result is the exact rational result rounded to the nearest
  double, ties to even, with gradual underflow and overflow to infinity.

  The durations and times of the long-tasks metric are only compared with constants and
  counted; they are exact rationals, type \<open>number\<close>.
\<close>

type_synonym number = rat

datatype double = NaN | Infinity bool | Finite bool rat
  \<comment> \<open>the flag is the sign bit: \<open>Finite True 0\<close> is \<open>-0\<close>, \<open>Infinity True\<close> is \<open>-Infinity\<close>\<close>

definition pow2 :: "int \<Rightarrow> rat" where
  "pow2 e = (if 0 \<le> e then 2 ^ nat e else 1 / 2 ^ nat (- e))"

definition floorLog2 :: "rat \<Rightarrow> int" where
  \<comment> \<open>for \<open>0 < m\<close>, the exponent \<open>e\<close> with \<open>pow2 e \<le> m < pow2 (e + 1)\<close>
      (lemma \<open>floorLog2_bounds\<close>)\<close>
  "floorLog2 m = (if 1 \<le> m then bitlen \<lfloor>m\<rfloor> - 1 else - bitlen (\<lceil>1 / m\<rceil> - 1))"

definition roundTiesToEven :: "rat \<Rightarrow> int" where
  "roundTiesToEven q =
     (let f = \<lfloor>q\<rfloor>; r = q - of_int f
      in if r < 1 / 2 then f else if 1 / 2 < r then f + 1 else if even f then f else f + 1)"

definition roundToDouble :: "bool \<Rightarrow> rat \<Rightarrow> double" where
  \<comment> \<open>the double nearest to the magnitude \<open>m \<ge> 0\<close>, with sign bit \<open>neg\<close>: 53 significant bits,
      exponent at least -1022 (below it the spacing stays \<open>pow2 (- 1074)\<close>), infinite when
      the rounded magnitude reaches \<open>pow2 1024\<close>\<close>
  "roundToDouble neg m =
     (if m = 0 then Finite neg 0
      else (let e = max (floorLog2 m) (- 1022);
                ulp = pow2 (e - 52);
                r = of_int (roundTiesToEven (m / ulp)) * ulp
            in if pow2 1024 \<le> r then Infinity neg else Finite neg r))"

definition signedValue :: "bool \<Rightarrow> rat \<Rightarrow> rat" where
  "signedValue neg m = (if neg then - m else m)"

fun numLess :: "double \<Rightarrow> double \<Rightarrow> bool" where
  \<comment> \<open>\<open>x < y\<close>: false when either side is NaN; the two zeros are equal\<close>
  "numLess (Finite s a) (Finite t b) = (signedValue s a < signedValue t b)"
| "numLess (Finite s a) (Infinity t) = (\<not> t)"
| "numLess (Infinity s) (Finite t b) = s"
| "numLess (Infinity s) (Infinity t) = (s \<and> \<not> t)"
| "numLess x y = False"

fun numLessEq :: "double \<Rightarrow> double \<Rightarrow> bool" where
  \<comment> \<open>\<open>x <= y\<close>\<close>
  "numLessEq (Finite s a) (Finite t b) = (signedValue s a \<le> signedValue t b)"
| "numLessEq (Finite s a) (Infinity t) = (\<not> t)"
| "numLessEq (Infinity s) (Finite t b) = s"
| "numLessEq (Infinity s) (Infinity t) = (s \<or> \<not> t)"
| "numLessEq x y = False"

fun numDivide :: "double \<Rightarrow> double \<Rightarrow> double" where
  \<comment> \<open>\<open>x / y\<close>\<close>
  "numDivide (Finite s a) (Finite t b) =
     (if b = 0 then (if a = 0 then NaN else Infinity (s \<noteq> t))
      else roundToDouble (s \<noteq> t) (a / b))"
| "numDivide (Finite s a) (Infinity t) = Finite (s \<noteq> t) 0"
| "numDivide (Infinity s) (Finite t b) = Infinity (s \<noteq> t)"
| "numDivide x y = NaN"

fun numTimes :: "double \<Rightarrow> double \<Rightarrow> double" where
  \<comment> \<open>\<open>x * y\<close>\<close>
  "numTimes (Finite s a) (Finite t b) = roundToDouble (s \<noteq> t) (a * b)"
| "numTimes (Finite s a) (Infinity t) = (if a = 0 then NaN else Infinity (s \<noteq> t))"
| "numTimes (Infinity s) (Finite t b) = (if b = 0 then NaN else Infinity (s \<noteq> t))"
| "numTimes (Infinity s) (Infinity t) = Infinity (s \<noteq> t)"
| "numTimes x y = NaN"

definition numberLiteral :: "nat \<Rightarrow> double" where
  \<comment> \<open>a decimal integer literal of the source text, such as \<open>1000\<close> and \<open>0\<close>\<close>
  "numberLiteral n = roundToDouble False (of_nat n)"

definition isDigit :: "char \<Rightarrow> bool" where
  \<comment> \<open>the class \<open>\d\<close>\<close>
  "isDigit c = (c \<in> set ''0123456789'')"

definition isWhiteSpace :: "char \<Rightarrow> bool" where
  \<comment> \<open>WhiteSpace and LineTerminator below 256: TAB, LF, VT, FF, CR, SP, NBSP.
      It is the class \<open>\s\<close> and the set that \<open>String.prototype.trim\<close> strips.\<close>
  "isWhiteSpace c =
     (c \<in> {CHR 0x09, CHR 0x0A, CHR 0x0B, CHR 0x0C, CHR 0x0D, CHR '' '', CHR 0xA0})"

definition trim :: "string \<Rightarrow> string" where
  "trim s = rev (dropWhile isWhiteSpace (rev (dropWhile isWhiteSpace s)))"

definition startsWith :: "string \<Rightarrow> string \<Rightarrow> bool" where
  "startsWith s p = prefix p s"

fun split :: "string \<Rightarrow> char \<Rightarrow> string list" where
  \<comment> \<open>\<open>s.split(sep)\<close> for a one-character separator\<close>
  "split [] sep = [[]]"
| "split (c # cs) sep =
     (if c = sep then [] # split cs sep
      else (case split cs sep of [] \<Rightarrow> [[c]] | l # ls \<Rightarrow> (c # l) # ls))"

definition digitValue :: "char \<Rightarrow> nat" where
  "digitValue c = of_char c - 48"

definition digitsToNat :: "string \<Rightarrow> nat" where
  "digitsToNat ds = foldl (\<lambda>acc d. 10 * acc + digitValue d) 0 ds"

definition literalNegative :: "string \<Rightarrow> bool" where
  "literalNegative s = (case s of [] \<Rightarrow> False | c # _ \<Rightarrow> c = CHR ''-'')"

definition literalIntegerPart :: "string \<Rightarrow> string" where
  "literalIntegerPart s = takeWhile isDigit (if literalNegative s then tl s else s)"

definition literalFractionPart :: "string \<Rightarrow> string" where
  "literalFractionPart s =
     (case dropWhile isDigit (if literalNegative s then tl s else s) of
        [] \<Rightarrow> []
      | c # f \<Rightarrow> if c = CHR ''.'' then takeWhile isDigit f else [])"

definition decimalMagnitude :: "string \<Rightarrow> rat" where
  "decimalMagnitude s =
     of_nat (digitsToNat (literalIntegerPart s)) +
     of_nat (digitsToNat (literalFractionPart s)) / 10 ^ length (literalFractionPart s)"

definition decimalValue :: "string \<Rightarrow> rat" where
  \<comment> \<open>the mathematical value of a literal \<open>-?\d+\.\d+\<close>, before any rounding\<close>
  "decimalValue s = signedValue (literalNegative s) (decimalMagnitude s)"

definition parseFloat :: "string \<Rightarrow> double" where
  \<comment> \<open>\<open>parseFloat\<close> on an optional minus sign, digits and an optional fraction: the double
      nearest to the mathematical value, with the sign of the literal (so \<open>-0.0\<close> is \<open>-0\<close>),
      and NaN when there is no digit.  The importer passes it the literals \<open>-?\d+\.\d+\<close> only
      (lemma \<open>exec_battorDataLineRE_shape\<close>); leading white space, a plus sign, exponents
      and \<open>Infinity\<close>, which those cannot contain, are outside the model.\<close>
  "parseFloat s =
     (if literalIntegerPart s = [] \<and> literalFractionPart s = [] then NaN
      else roundToDouble (literalNegative s) (decimalMagnitude s))"

section \<open>Regular expressions\<close>

text \<open>
  The fragment of ECMAScript patterns the source uses, with the backtracking,
  continuation-passing matcher of the language definition: greedy \<open>+\<close> and \<open>?\<close>, capture
  groups, the assertions \<open>^\<close> and \<open>$\<close> (no flags).  A matcher state is the index reached in
  the input, the input left to read, and the captures so far.
\<close>

datatype cclass = Digit | Space | NonSpace

fun in_class :: "cclass \<Rightarrow> char \<Rightarrow> bool" where
  "in_class Digit c = isDigit c"
| "in_class Space c = isWhiteSpace c"
| "in_class NonSpace c = (\<not> isWhiteSpace c)"

datatype regex =
    Eps
  | Bol
  | Eol
  | Chr char
  | Plus cclass
  | Opt regex
  | Seq regex regex
  | Group nat regex

type_synonym captures = "nat \<Rightarrow> string option"
type_synonym mstate = "nat \<times> string \<times> captures"

fun star :: "cclass \<Rightarrow> mstate \<Rightarrow> (mstate \<Rightarrow> mstate option) \<Rightarrow> mstate option" where
  "star cl (i, [], caps) k = k (i, [], caps)"
| "star cl (i, x # xs, caps) k =
     (if in_class cl x
      then (case star cl (Suc i, xs, caps) k of
              Some res \<Rightarrow> Some res
            | None \<Rightarrow> k (i, x # xs, caps))
      else k (i, x # xs, caps))"

fun matcher :: "regex \<Rightarrow> mstate \<Rightarrow> (mstate \<Rightarrow> mstate option) \<Rightarrow> mstate option" where
  "matcher Eps st k = k st"
| "matcher Bol (i, s, caps) k = (if i = 0 then k (i, s, caps) else None)"
| "matcher Eol (i, s, caps) k = (if s = [] then k (i, s, caps) else None)"
| "matcher (Chr c) (i, s, caps) k =
     (case s of [] \<Rightarrow> None | x # xs \<Rightarrow> if x = c then k (Suc i, xs, caps) else None)"
| "matcher (Plus cl) (i, s, caps) k =
     (case s of [] \<Rightarrow> None
      | x # xs \<Rightarrow> if in_class cl x then star cl (Suc i, xs, caps) k else None)"
| "matcher (Opt r) st k =
     (case matcher r st k of Some res \<Rightarrow> Some res | None \<Rightarrow> k st)"
| "matcher (Seq a b) st k = matcher a st (\<lambda>st'. matcher b st' k)"
| "matcher (Group n r) (i, s, caps) k =
     matcher r (i, s, caps)
       (\<lambda>(j, s', caps'). k (j, s', caps'(n \<mapsto> take (j - i) s)))"

definition matchAt :: "regex \<Rightarrow> nat \<Rightarrow> string \<Rightarrow> captures option" where
  \<comment> \<open>one attempt at start index \<open>i\<close>, \<open>s\<close> being the input from \<open>i\<close> on; entry 0 of the
      result is the matched text\<close>
  "matchAt r i s =
     (case matcher r (i, s, Map.empty) Some of
        None \<Rightarrow> None
      | Some (j, rest, caps) \<Rightarrow> Some (caps(0 \<mapsto> take (j - i) s)))"

fun exec_from :: "regex \<Rightarrow> nat \<Rightarrow> string \<Rightarrow> captures option" where
  \<comment> \<open>the search of \<open>RegExp.prototype.exec\<close> for the leftmost start index, from \<open>i\<close> on\<close>
  "exec_from r i [] = matchAt r i []"
| "exec_from r i (x # xs) =
     (case matchAt r i (x # xs) of
        Some groups \<Rightarrow> Some groups
      | None \<Rightarrow> exec_from r (Suc i) xs)"

definition exec :: "regex \<Rightarrow> string \<Rightarrow> captures option" where
  \<comment> \<open>\<open>re.exec(s)\<close>: the match array, entry 0 the whole match, entry \<open>n\<close> group \<open>n\<close>\<close>
  "exec r s = exec_from r 0 s"

definition test :: "regex \<Rightarrow> string \<Rightarrow> bool" where
  "test r s = (exec r s \<noteq> None)"

fun Seqs :: "regex list \<Rightarrow> regex" where
  "Seqs [] = Eps"
| "Seqs [r] = r"
| "Seqs (r # rs) = Seq r (Seqs rs)"

fun Lit :: "string \<Rightarrow> regex" where
  "Lit [] = Eps"
| "Lit [c] = Chr c"
| "Lit (c # cs) = Seq (Chr c) (Lit cs)"

definition decimalRE :: "nat \<Rightarrow> regex" where
  \<comment> \<open>\<open>(-?\d+\.\d+)\<close> as group \<open>n\<close>\<close>
  "decimalRE n = Group n (Seqs [Opt (Chr CHR ''-''), Plus Digit, Chr CHR ''.'', Plus Digit])"

definition battorDataLineRE :: regex where
  \<comment> \<open>\<open>^(-?\d+\.\d+)\s+(-?\d+\.\d+)\s+(-?\d+\.\d+)(?:\s+<(\S+)>)?$\<close>\<close>
  "battorDataLineRE =
     Seqs [Bol, decimalRE 1, Plus Space, decimalRE 2, Plus Space, decimalRE 3,
           Opt (Seqs [Plus Space, Chr CHR ''<'', Group 4 (Plus NonSpace), Chr CHR ''>'']),
           Eol]"

definition battorHeaderLineRE :: regex where
  \<comment> \<open>\<open>/^# BattOr/\<close>\<close>
  "battorHeaderLineRE = Seq Bol (Lit ''# BattOr'')"

section \<open>The trace model\<close>

text \<open>
  Modelled from the spec: the model classes (model/model.js, model/power_series.js,
  model/clock_sync_manager.js) are not among the sources.  The types below follow the
  spec's data model: a model owns a device, a clock-sync manager and an ordered log of
  import warnings (a kind and a message each); a device owns at most one power series; a
  manager holds the markers registered per clock domain.  Of the clock domains the importer
  names \<open>BATTOR\<close>; the host trace clock stands for the others.
\<close>

datatype ClockDomainId = BATTOR | HOST_TRACE_CLOCK

record ImportWarning =
  type :: string
  message :: string

record PowerSeries =
  samples :: "(double \<times> double) list"

definition newPowerSeries :: PowerSeries where
  \<comment> \<open>Modelled from the spec: \<open>tr.model.PowerSeries\<close> (model/power_series.js) is not among
      the sources.  A series is an append-only sequence of samples, empty when created.\<close>
  "newPowerSeries = \<lparr>samples = []\<rparr>"

definition addPowerSample :: "PowerSeries \<Rightarrow> double \<Rightarrow> double \<Rightarrow> PowerSeries" where
  \<comment> \<open>Modelled from the spec: \<open>PowerSeries.addPowerSample\<close> is not among the sources.
      It appends the sample (timestamp, power) to the series, with no deduplication.\<close>
  "addPowerSample series t p = series\<lparr>samples := samples series @ [(t, p)]\<rparr>"

record ClockSyncManager =
  markers :: "(ClockDomainId \<times> string \<times> double) list"

definition addClockSyncMarker ::
  "ClockSyncManager \<Rightarrow> ClockDomainId \<Rightarrow> string \<Rightarrow> double \<Rightarrow> ClockSyncManager" where
  \<comment> \<open>Modelled from the spec: \<open>ClockSyncManager.addClockSyncMarker\<close>
      (model/clock_sync_manager.js) is not among the sources.  It records the marker
      (domain, sync id, local timestamp) and never fails.\<close>
  "addClockSyncMarker mgr domainId sid t = mgr\<lparr>markers := markers mgr @ [(domainId, sid, t)]\<rparr>"

record Device =
  powerSeries :: "PowerSeries option"

record Model =
  device :: Device
  clockSyncManager :: ClockSyncManager
  importWarnings :: "ImportWarning list"

definition importWarning :: "Model \<Rightarrow> ImportWarning \<Rightarrow> Model" where
  \<comment> \<open>Modelled from the spec: \<open>Model.importWarning\<close> (model/model.js) is not among the
      sources.  It appends the warning to the model's ordered warning log.\<close>
  "importWarning model w = model\<lparr>importWarnings := importWarnings model @ [w]\<rparr>"

definition emptyModel :: Model where
  "emptyModel =
     \<lparr>device = \<lparr>powerSeries = None\<rparr>, clockSyncManager = \<lparr>markers = []\<rparr>, importWarnings = []\<rparr>"

section \<open>The BattOr importer\<close>

record Sample =
  ts :: double
  voltage :: double
  current :: double
  syncId :: "string option"

definition newSample :: "double \<Rightarrow> double \<Rightarrow> double \<Rightarrow> string option \<Rightarrow> Sample" where
  "newSample t v c opt_syncId = \<lparr>ts = t, voltage = v, current = c, syncId = opt_syncId\<rparr>"

definition power' :: "Sample \<Rightarrow> double" where
  "power' s = numTimes (voltage s) (current s)"

definition capture :: "captures \<Rightarrow> nat \<Rightarrow> string" where
  \<comment> \<open>\<open>groups[n]\<close> as the string handed to \<open>parseFloat\<close>.  Groups 1 to 3 take part in
      every match (lemma \<open>exec_battorDataLineRE_D\<close>), so the undefined case, written as
      the empty string, does not arise.\<close>
  "capture groups n = (case groups n of None \<Rightarrow> [] | Some g \<Rightarrow> g)"

definition unrecognizedLine :: "string \<Rightarrow> ImportWarning" where
  "unrecognizedLine line =
     \<lparr>type = ''parse_error'', message = ''Unrecognized line in BattOr trace: '' @ line\<rparr>"

definition negativeLine :: "string \<Rightarrow> ImportWarning" where
  "negativeLine line =
     \<lparr>type = ''parse_error'',
      message = ''The following line in the BattOr trace has a negative '' @
                ''voltage or current, neither of which are allowed: '' @ line @
                ''. A common cause of this is that the device is charging '' @
                ''while the trace is being recorded.''\<rparr>"

fun linesToSamplesLoop :: "string list \<Rightarrow> Sample list \<Rightarrow> Model \<Rightarrow> Sample list \<times> Model" where
  "linesToSamplesLoop [] smpls model = (smpls, model)"
| "linesToSamplesLoop (l # ls) smpls model =
     (let line = trim l in
      if length line = 0 then linesToSamplesLoop ls smpls model
      else if startsWith line ''#'' then linesToSamplesLoop ls smpls model
      else (case exec battorDataLineRE line of
              None \<Rightarrow> linesToSamplesLoop ls smpls (importWarning model (unrecognizedLine line))
            | Some groups \<Rightarrow>
               (let t = parseFloat (capture groups 1);
                    v = numDivide (parseFloat (capture groups 2)) (numberLiteral 1000);
                    c = numDivide (parseFloat (capture groups 3)) (numberLiteral 1000);
                    sid = groups 4
                in if numLess v (numberLiteral 0) \<or> numLess c (numberLiteral 0)
                   then linesToSamplesLoop ls smpls (importWarning model (negativeLine line))
                   else linesToSamplesLoop ls (smpls @ [newSample t v c sid]) model)))"

definition linesToSamples :: "Model \<Rightarrow> string list \<Rightarrow> Sample list \<times> Model" where
  "linesToSamples model lines = linesToSamplesLoop lines [] model"

record BattorImporter =
  importPriority :: nat
  this_model :: Model
  this_samples :: "Sample list"

definition newBattorImporter :: "Model \<Rightarrow> string \<Rightarrow> BattorImporter" where
  "newBattorImporter model events =
     (let (smpls, model') = linesToSamples model (split events CHR 0x0A)
      in \<lparr>importPriority = 3, this_model = model', this_samples = smpls\<rparr>)"

fun importClockSyncMarkersLoop :: "Sample list \<Rightarrow> Model \<Rightarrow> Model" where
  \<comment> \<open>the guard \<open>if (sample.syncId)\<close> is JavaScript truthiness: an undefined sync id and
      the empty string are both skipped\<close>
  "importClockSyncMarkersLoop [] model = model"
| "importClockSyncMarkersLoop (sample # rest) model =
     (case syncId sample of
        None \<Rightarrow> importClockSyncMarkersLoop rest model
      | Some sid \<Rightarrow>
          if sid \<noteq> []
          then importClockSyncMarkersLoop rest
                 (model\<lparr>clockSyncManager :=
                    addClockSyncMarker (clockSyncManager model) BATTOR sid (ts sample)\<rparr>)
          else importClockSyncMarkersLoop rest model)"

definition importClockSyncMarkers :: "BattorImporter \<Rightarrow> BattorImporter" where
  "importClockSyncMarkers imp =
     imp\<lparr>this_model := importClockSyncMarkersLoop (this_samples imp) (this_model imp)\<rparr>"

definition powerCounterExists :: ImportWarning where
  "powerCounterExists =
     \<lparr>type = ''import_error'',
      message = ''Power counter exists, can not import BattOr power trace.''\<rparr>"

fun importEventsLoop :: "Sample list \<Rightarrow> (double \<Rightarrow> double) \<Rightarrow> PowerSeries \<Rightarrow> PowerSeries" where
  "importEventsLoop [] modelTimeTransformer series = series"
| "importEventsLoop (sample # rest) modelTimeTransformer series =
     importEventsLoop rest modelTimeTransformer
       (addPowerSample series (modelTimeTransformer (ts sample)) (power' sample))"

definition importEvents ::
  "(ClockSyncManager \<Rightarrow> ClockDomainId \<Rightarrow> double \<Rightarrow> double) \<Rightarrow> BattorImporter \<Rightarrow> BattorImporter" where
  \<comment> \<open>\<open>ClockSyncManager.getModelTimeTransformer\<close> is not among the sources: it is the
      parameter \<open>getModelTimeTransformer\<close>, any function from the manager's state and a
      clock domain to a map on timestamps.\<close>
  "importEvents getModelTimeTransformer imp =
     (let model = this_model imp in
      case powerSeries (device model) of
        Some existing \<Rightarrow> imp\<lparr>this_model := importWarning model powerCounterExists\<rparr>
      | None \<Rightarrow>
         (let modelTimeTransformer = getModelTimeTransformer (clockSyncManager model) BATTOR;
              series = importEventsLoop (this_samples imp) modelTimeTransformer newPowerSeries
          in imp\<lparr>this_model := model\<lparr>device := (device model)\<lparr>powerSeries := Some series\<rparr>\<rparr>\<rparr>))"

text \<open>
  The values \<open>canImport\<close> can be handed.  An object is given by the two operations the
  function applies to it: \<open>events instanceof String\<close>, which walks the prototype chain (pure
  for an ordinary object, a trap for a proxy), and the conversion to a string that
  \<open>RegExp.prototype.test\<close> performs on its argument (the object's \<open>toString\<close> and \<open>valueOf\<close>
  methods).  Each may throw or run code of the caller, so each takes the state \<open>'w\<close> of the
  rest of the program and returns an exception or a result, and the state after.
\<close>

datatype exception = TypeError | OtherException

datatype 'w jsvalue =
    Undefined
  | Null
  | Boolean bool
  | Number double
  | Symbol string
  | StringPrimitive string
  | Object "'w \<Rightarrow> (exception + bool) \<times> 'w" "'w \<Rightarrow> (exception + string) \<times> 'w"

definition canImport :: "'w jsvalue \<Rightarrow> 'w \<Rightarrow> (exception + bool) \<times> 'w" where
  \<comment> \<open>\<open>typeof(events) === 'string'\<close> holds of a primitive string alone, and then \<open>||\<close> does not
      evaluate \<open>instanceof\<close>.  Of a primitive that is not a string \<open>instanceof String\<close> is
      false.  \<open>battorHeaderLineRE\<close> has no flag, so \<open>test\<close> leaves it unchanged.\<close>
  "canImport events w =
     (case events of
        StringPrimitive s \<Rightarrow> (Inr (test battorHeaderLineRE s), w)
      | Object instanceofString toStringConversion \<Rightarrow>
          (case instanceofString w of
             (Inl e, w1) \<Rightarrow> (Inl e, w1)
           | (Inr False, w1) \<Rightarrow> (Inr False, w1)
           | (Inr True, w1) \<Rightarrow>
               (case toStringConversion w1 of
                  (Inl e, w2) \<Rightarrow> (Inl e, w2)
                | (Inr s, w2) \<Rightarrow> (Inr (test battorHeaderLineRE s), w2)))
      | _ \<Rightarrow> (Inr False, w))"

section \<open>The long-tasks metric\<close>

text \<open>
  Modelled from the spec: slices, threads, the Chrome model helper, ranges and histograms
  are classes that are not among the sources.  The records below hold the fields the metric
  reads: a slice's start, duration and stable id, a thread's top-level slices, a renderer's
  optional main thread.
\<close>

record Slice =
  start :: number
  duration :: number
  stableId :: string

definition slice_end :: "Slice \<Rightarrow> number" where
  "slice_end slice = start slice + duration slice"

record SliceGroup =
  topLevelSlices :: "Slice list"

record Thread =
  sliceGroup :: SliceGroup

record RendererHelper =
  mainThread :: "Thread option"

record ChromeModelHelper =
  rendererHelpers :: "(nat \<times> RendererHelper) list"

record Range =
  range_min :: number
  range_max :: number

definition fromExplicitRange :: "number \<Rightarrow> number \<Rightarrow> Range" where
  "fromExplicitRange lo hi = \<lparr>range_min = lo, range_max = hi\<rparr>"

definition intersectsExplicitRangeExclusive :: "Range \<Rightarrow> number \<Rightarrow> number \<Rightarrow> bool" where
  \<comment> \<open>Modelled from the spec: \<open>tr.b.Range\<close> (base/range.js) is not among the sources.
      Both ends are exclusive: two intervals that merely touch do not intersect.\<close>
  "intersectsExplicitRangeExclusive r lo hi = (lo < range_max r \<and> range_min r < hi)"

record Numeric =
  numeric_range :: Range
  underflowBin :: nat
  centralBins :: "nat list"
  overflowBin :: nat

record NumericBuilder =
  builder_range :: Range
  numBins :: nat

definition createLinear :: "Range \<Rightarrow> nat \<Rightarrow> NumericBuilder" where
  \<comment> \<open>Modelled from the spec: \<open>tr.v.NumericBuilder\<close> (value/numeric.js) is not among the
      sources.  A builder holds a range and a number of equal-width bins; the unit tag
      carries no behaviour and is left out.\<close>
  "createLinear r n = \<lparr>builder_range = r, numBins = n\<rparr>"

definition build :: "NumericBuilder \<Rightarrow> Numeric" where
  \<comment> \<open>Modelled from the spec: each \<open>build()\<close> yields a fresh histogram with all counts zero:
      the equal-width bins and the two catch-all bins below and at or above the range.\<close>
  "build b =
     \<lparr>numeric_range = builder_range b, underflowBin = 0,
      centralBins = replicate (numBins b) 0, overflowBin = 0\<rparr>"

definition add :: "Numeric \<Rightarrow> number \<Rightarrow> string \<Rightarrow> Numeric" where
  \<comment> \<open>Modelled from the spec: \<open>Numeric.add(value, provenanceId)\<close> increments the count of the
      bin that owns the value; a value below the range goes to the underflow bin, one at
      or above it to the overflow bin.  The optional retention of provenance ids is left
      out.\<close>
  "add numeric v provenanceId =
     (let lo = range_min (numeric_range numeric);
          hi = range_max (numeric_range numeric);
          n = length (centralBins numeric)
      in if v < lo then numeric\<lparr>underflowBin := Suc (underflowBin numeric)\<rparr>
         else if hi \<le> v then numeric\<lparr>overflowBin := Suc (overflowBin numeric)\<rparr>
         else (let i = nat \<lfloor>(v - lo) * of_nat n / (hi - lo)\<rfloor>
               in numeric\<lparr>centralBins := (centralBins numeric)[i := Suc (centralBins numeric ! i)]\<rparr>))"

definition LONG_TASK_MS :: number where
  "LONG_TASK_MS = 50"

definition LONGEST_TASK_MS :: number where
  "LONGEST_TASK_MS = 1000"

fun iterateLongTopLevelTasksOnThreadInRange ::
  "Thread \<Rightarrow> Range option \<Rightarrow> (Slice \<Rightarrow> 'a \<Rightarrow> 'a) \<Rightarrow> 'a \<Rightarrow> 'a" where
  \<comment> \<open>the callback \<open>cb\<close> threads the state it mutates (\<open>'a\<close>) through the calls\<close>
  "iterateLongTopLevelTasksOnThreadInRange thread opt_range cb acc =
     fold (\<lambda>slice acc.
             if (case opt_range of
                   None \<Rightarrow> False
                 | Some r \<Rightarrow> \<not> intersectsExplicitRangeExclusive r (start slice) (slice_end slice))
             then acc
             else if duration slice < LONG_TASK_MS then acc
             else cb slice acc)
          (topLevelSlices (sliceGroup thread)) acc"

definition iterateRendererMainThreads ::
  "('m \<Rightarrow> ChromeModelHelper) \<Rightarrow> 'm \<Rightarrow> (Thread \<Rightarrow> 'a \<Rightarrow> 'a) \<Rightarrow> 'a \<Rightarrow> 'a" where
  \<comment> \<open>\<open>model.getOrCreateHelper(ChromeModelHelper)\<close> is not among the sources: it is the
      parameter \<open>getOrCreateHelper\<close>.  The dictionary of renderer helpers is an association
      list, read in order by \<open>dictionaryValues\<close>.\<close>
  "iterateRendererMainThreads getOrCreateHelper model cb acc =
     (let modelHelper = getOrCreateHelper model in
      fold (\<lambda>rendererHelper acc.
              case mainThread rendererHelper of
                None \<Rightarrow> acc
              | Some thread \<Rightarrow> cb thread acc)
           (map snd (rendererHelpers modelHelper)) acc)"

definition LONG_TASK_NUMERIC_BUILDER :: NumericBuilder where
  "LONG_TASK_NUMERIC_BUILDER = createLinear (fromExplicitRange LONG_TASK_MS LONGEST_TASK_MS) 50"

definition longTasksMetric ::
  "('m \<Rightarrow> ChromeModelHelper) \<Rightarrow> (string \<times> Numeric) list \<Rightarrow> 'm \<Rightarrow> (string \<times> Numeric) list" where
  \<comment> \<open>the sink \<open>values\<close> is the list of named values added so far\<close>
  "longTasksMetric getOrCreateHelper values model =
     (let longTaskNumeric = build LONG_TASK_NUMERIC_BUILDER;
          longTaskNumeric' =
            iterateRendererMainThreads getOrCreateHelper model
              (\<lambda>thread numeric.
                 iterateLongTopLevelTasksOnThreadInRange thread None
                   (\<lambda>task numeric. add numeric (duration task) (stableId task)) numeric)
              longTaskNumeric
      in values @ [(''long tasks'', longTaskNumeric')])"

section \<open>Specification-level definitions\<close>

text \<open>
  The relation \<open>matches r st st'\<close> is the declarative reading of a pattern: \<open>r\<close> can take the
  matcher from state \<open>st\<close> to state \<open>st'\<close>.  The backtracking matcher is sound and complete
  for it (lemmas \<open>matcher_sound\<close> and \<open>matcher_complete\<close>).
\<close>

inductive matches :: "regex \<Rightarrow> mstate \<Rightarrow> mstate \<Rightarrow> bool" where
  m_Eps: "matches Eps st st"
| m_Bol: "matches Bol (0, s, caps) (0, s, caps)"
| m_Eol: "matches Eol (i, [], caps) (i, [], caps)"
| m_Chr: "matches (Chr c) (i, c # s, caps) (Suc i, s, caps)"
| m_Plus: "p \<noteq> [] \<Longrightarrow> list_all (in_class cl) p \<Longrightarrow>
           matches (Plus cl) (i, p @ s, caps) (i + length p, s, caps)"
| m_OptSome: "matches r st st' \<Longrightarrow> matches (Opt r) st st'"
| m_OptNone: "matches (Opt r) st st"
| m_Seq: "matches a st mid \<Longrightarrow> matches b mid st' \<Longrightarrow> matches (Seq a b) st st'"
| m_Group: "matches r (i, s, caps) (j, s', caps') \<Longrightarrow>
            matches (Group n r) (i, s, caps) (j, s', caps'(n \<mapsto> take (j - i) s))"


text \<open>The strings \<open>-?\d+\.\d+\<close>, and the optional tail \<open>\s+<\S+>\<close> of a data line.\<close>

definition isDecimalLiteral :: "string \<Rightarrow> bool" where
  "isDecimalLiteral d =
     (let body = (if startsWith d ''-'' then tl d else d);
          ip = takeWhile isDigit body;
          rest = dropWhile isDigit body
      in ip \<noteq> [] \<and>
         (case rest of [] \<Rightarrow> False
          | c # fp \<Rightarrow> c = CHR ''.'' \<and> fp \<noteq> [] \<and> list_all isDigit fp))"


definition dataLineTail :: "string \<Rightarrow> string option \<Rightarrow> bool" where
  "dataLineTail rest g4 =
     ((rest = [] \<and> g4 = None) \<or>
      (\<exists>ws b. ws \<noteq> [] \<and> list_all isWhiteSpace ws \<and> b \<noteq> [] \<and> list_all (\<lambda>c. \<not> isWhiteSpace c) b \<and>
              rest = ws @ ''<'' @ b @ ''>'' \<and> g4 = Some b))"


text \<open>What one line contributes when it is parsed on its own.\<close>

definition lineSamples :: "string \<Rightarrow> Sample list" where
  "lineSamples l = fst (linesToSamplesLoop [l] [] emptyModel)"

definition lineWarnings :: "string \<Rightarrow> ImportWarning list" where
  "lineWarnings l = importWarnings (snd (linesToSamplesLoop [l] [] emptyModel))"


text \<open>The timestamps of the power series an importer's model holds, in series order.\<close>

definition seriesTimestamps :: "BattorImporter \<Rightarrow> double list" where
  "seriesTimestamps imp =
     (case powerSeries (device (this_model imp)) of
        None \<Rightarrow> []
      | Some series \<Rightarrow> map fst (samples series))"


text \<open>
  The timestamps one call of \<open>importEvents\<close> adds: those of the series afterwards, less the
  ones the series held before.
\<close>

definition appendedTimestamps ::
  "(ClockSyncManager \<Rightarrow> ClockDomainId \<Rightarrow> double \<Rightarrow> double) \<Rightarrow> BattorImporter \<Rightarrow> double list" where
  "appendedTimestamps getModelTimeTransformer imp =
     drop (length (seriesTimestamps imp))
       (seriesTimestamps (importEvents getModelTimeTransformer imp))"


section \<open>Inputs of the examples\<close>

text \<open>
  Two clock-sync managers' transforms: the identity, which the spec gives for a domain
  without matched markers, and a scaling by two.
\<close>

definition identityTransformer :: "ClockSyncManager \<Rightarrow> ClockDomainId \<Rightarrow> double \<Rightarrow> double" where
  "identityTransformer mgr domainId t = t"

definition doublingTransformer :: "ClockSyncManager \<Rightarrow> ClockDomainId \<Rightarrow> double \<Rightarrow> double" where
  "doublingTransformer mgr domainId t = numTimes (numberLiteral 2) t"


text \<open>A model whose device already holds a power series.\<close>

definition modelWithPowerSeries :: Model where
  "modelWithPowerSeries =
     emptyModel\<lparr>device := \<lparr>powerSeries = Some \<lparr>samples = [(Finite False 0, Finite False 3)]\<rparr>\<rparr>\<rparr>"


text \<open>One renderer whose main thread has a single top-level slice, of duration 50.\<close>

definition boundaryModel :: ChromeModelHelper where
  "boundaryModel =
     \<lparr>rendererHelpers =
        [(1, \<lparr>mainThread = Some \<lparr>sliceGroup = \<lparr>topLevelSlices =
                [\<lparr>start = 0, duration = 50, stableId = ''task''\<rparr>]\<rparr>\<rparr>\<rparr>)]\<rparr>"


text \<open>
  A data line whose second field is negative and smaller in magnitude than half the least
  positive double: 330 zeros follow the decimal point.
\<close>

definition tinyNegativeField :: string where
  "tinyNegativeField = ''-0.0000000000000000000000000000000000000000000000000000000000000000000000000000000000000000000000000000000000000000000000000000000000000000000000000000000000000000000000000000000000000000000000000000000000000000000000000000000000000000000000000000000000000000000000000000000000000000000000000000000000000000000000000000000000000000001''"

definition tinyNegativeLine :: string where
  "tinyNegativeLine = ''1.0 '' @ tinyNegativeField @ '' 500.0''"


text \<open>
  Three objects: a String object with the built-in conversion (\<open>new String(s)\<close>); the object
  \<open>Object.create(String.prototype)\<close>, ordinary, so that \<open>instanceof\<close> is pure, and converted by
  \<open>String.prototype.toString\<close>, which throws a TypeError on a receiver that is not a string;
  and a String object whose own \<open>toString\<close> returns \<open># BattOr\<close> and counts its calls in the
  program state.
\<close>

definition stringObject :: "string \<Rightarrow> 'w jsvalue" where
  "stringObject s = Object (\<lambda>w. (Inr True, w)) (\<lambda>w. (Inr s, w))"

definition objectCreateStringPrototype :: "unit jsvalue" where
  "objectCreateStringPrototype = Object (\<lambda>w. (Inr True, w)) (\<lambda>w. (Inl TypeError, w))"

definition countingStringObject :: "nat jsvalue" where
  "countingStringObject = Object (\<lambda>w. (Inr True, w)) (\<lambda>w. (Inr ''# BattOr'', Suc w))"


section \<open>Rounding to double\<close>

lemma pow2_pos: "0 < pow2 e"
  by (simp add: pow2_def)

lemma pow2_powi: "pow2 e = 2 powi e"
  unfolding pow2_def power_int_def by (simp only: power_inverse inverse_eq_divide power_one_over)

lemma pow2_add: "pow2 (a + b) = pow2 a * pow2 b"
  by (simp add: pow2_powi power_int_add)

lemma pow2_mono: "a \<le> b \<Longrightarrow> pow2 a \<le> pow2 b"
  by (simp add: pow2_powi power_int_increasing)

lemma floorLog2_bounds:
  assumes "0 < m"
  shows "pow2 (floorLog2 m) \<le> m \<and> m < pow2 (floorLog2 m + 1)"
proof (cases "1 \<le> m")
  case True
  define n where "n = \<lfloor>m\<rfloor>"
  from True have n: "0 < n" by (simp add: n_def)
  from bitlen_bounds[OF n] have b: "2 ^ nat (bitlen n - 1) \<le> n" "n < 2 ^ nat (bitlen n)" by auto
  from n have bl: "1 \<le> bitlen n" by (simp add: bitlen_ge_iff_power)
  have e: "floorLog2 m = bitlen n - 1" using True by (simp add: floorLog2_def n_def)
  have "(of_int (2 ^ nat (bitlen n - 1)) :: rat) \<le> of_int n" using b(1) by (simp only: of_int_le_iff)
  also have "\<dots> \<le> m" by (simp add: n_def)
  finally have lo: "pow2 (floorLog2 m) \<le> m" using bl by (simp add: e pow2_def)
  have "n + 1 \<le> 2 ^ nat (bitlen n)" using b(2) by simp
  then have "(of_int (n + 1) :: rat) \<le> of_int (2 ^ nat (bitlen n))" by (simp only: of_int_le_iff)
  moreover have "m < of_int (n + 1)" unfolding n_def by linarith
  ultimately have "m < pow2 (floorLog2 m + 1)" using bl by (simp add: e pow2_def)
  with lo show ?thesis by simp
next
  case False
  define t where "t = 1 / m"
  from False assms have t: "1 < t" by (simp add: t_def)
  define c where "c = \<lceil>t\<rceil> - 1"
  from t have c: "0 < c" unfolding c_def by linarith
  from bitlen_bounds[OF c] have b: "2 ^ nat (bitlen c - 1) \<le> c" "c < 2 ^ nat (bitlen c)" by auto
  from c have bl: "1 \<le> bitlen c" by (simp add: bitlen_ge_iff_power)
  have e: "floorLog2 m = - bitlen c" using False by (simp add: floorLog2_def c_def t_def)
  have "c + 1 \<le> 2 ^ nat (bitlen c)" using b(2) by simp
  then have "(of_int (c + 1) :: rat) \<le> of_int (2 ^ nat (bitlen c))" by (simp only: of_int_le_iff)
  moreover have "t \<le> of_int (c + 1)" unfolding c_def by simp
  ultimately have "t \<le> 2 ^ nat (bitlen c)" by simp
  then have "1 / 2 ^ nat (bitlen c) \<le> m"
    using assms unfolding t_def by (simp add: field_simps)
  then have lo: "pow2 (floorLog2 m) \<le> m" using bl by (simp add: e pow2_def)
  have "(of_int (2 ^ nat (bitlen c - 1)) :: rat) \<le> of_int c" using b(1) by (simp only: of_int_le_iff)
  then have "(2::rat) ^ nat (bitlen c - 1) \<le> of_int c" by simp
  moreover have "of_int c < t" unfolding c_def by linarith
  ultimately have lt: "2 ^ nat (bitlen c - 1) < t" by linarith
  have hi: "m < pow2 (floorLog2 m + 1)"
  proof (cases "bitlen c = 1")
    case True
    then show ?thesis using False by (simp add: e pow2_def)
  next
    case False
    with bl have "1 < bitlen c" by simp
    moreover from lt assms have "m < 1 / 2 ^ nat (bitlen c - 1)"
      unfolding t_def by (simp add: field_simps)
    ultimately show ?thesis by (simp add: e pow2_def)
  qed
  with lo show ?thesis by simp
qed

lemma roundTiesToEven_nonneg: "0 \<le> q \<Longrightarrow> 0 \<le> roundTiesToEven q"
  by (auto simp: roundTiesToEven_def Let_def)

lemma roundTiesToEven_small: "0 \<le> q \<Longrightarrow> q \<le> 1 / 2 \<Longrightarrow> roundTiesToEven q = 0"
proof -
  assume q: "0 \<le> q" "q \<le> 1 / 2"
  then have "\<lfloor>q\<rfloor> = 0" by linarith
  with q show ?thesis by (simp add: roundTiesToEven_def Let_def)
qed

lemma roundToDouble_cases:
  assumes "0 \<le> m"
  obtains (finite) r where "roundToDouble neg m = Finite neg r" "0 \<le> r"
    | (infinite) "roundToDouble neg m = Infinity neg"
proof (cases "m = 0")
  case True
  then show ?thesis using finite[of 0] by (simp add: roundToDouble_def)
next
  case False
  define ulp where "ulp = pow2 (max (floorLog2 m) (- 1022) - 52)"
  define r where "r = of_int (roundTiesToEven (m / ulp)) * ulp"
  have "0 < ulp" by (simp add: ulp_def pow2_pos)
  with assms have "0 \<le> m / ulp" by simp
  from roundTiesToEven_nonneg[OF this] \<open>0 < ulp\<close> have "0 \<le> r" by (simp add: r_def)
  show ?thesis
  proof (cases "pow2 1024 \<le> r")
    case True
    then show ?thesis using False infinite by (simp add: roundToDouble_def Let_def r_def ulp_def)
  next
    case F: False
    then show ?thesis using False finite[of r] \<open>0 \<le> r\<close>
      by (simp add: roundToDouble_def Let_def r_def ulp_def)
  qed
qed

lemma roundToDouble_underflow:
  assumes "0 \<le> m" "m \<le> pow2 (- 1075)"
  shows "roundToDouble neg m = Finite neg 0"
proof (cases "m = 0")
  case True
  then show ?thesis by (simp add: roundToDouble_def)
next
  case False
  with assms have m: "0 < m" by simp
  have "pow2 (floorLog2 m) \<le> pow2 (- 1075)"
    using floorLog2_bounds[OF m] assms(2) by simp
  have e: "floorLog2 m \<le> - 1022"
  proof (rule ccontr)
    assume "\<not> floorLog2 m \<le> - 1022"
    then have "- 1021 \<le> floorLog2 m" by simp
    from pow2_mono[OF this] floorLog2_bounds[OF m] assms(2) have "pow2 (- 1021) \<le> pow2 (- 1075)"
      by simp
    moreover have "pow2 (- 1075) < pow2 (- 1021)"
    proof -
      have "pow2 (- 1021) = pow2 (- 1075) * pow2 54" using pow2_add[of "- 1075" 54] by simp
      moreover have "1 < pow2 54" by (simp add: pow2_def)
      ultimately show ?thesis using pow2_pos[of "- 1075"] by simp
    qed
    ultimately show False by simp
  qed
  have ulp: "pow2 (max (floorLog2 m) (- 1022) - 52) = pow2 (- 1074)"
    using e by (simp add: max_def)
  have "pow2 (- 1074) = pow2 (- 1075) * 2" using pow2_add[of "- 1075" 1] by (simp add: pow2_def)
  with assms pow2_pos[of "- 1075"] have "m / pow2 (- 1074) \<le> 1 / 2"
    by (simp add: field_simps)
  moreover have "0 \<le> m / pow2 (- 1074)" using m pow2_pos[of "- 1074"] by simp
  ultimately have "roundTiesToEven (m / pow2 (- 1074)) = 0" by (rule roundTiesToEven_small[rotated])
  then show ?thesis using False pow2_pos[of 1024]
    by (simp add: roundToDouble_def Let_def ulp not_le)
qed


section \<open>The matcher against the declarative semantics\<close>

lemma star_sound:
  "star cl (i, s, caps) k = Some res \<Longrightarrow>
   \<exists>p rest. s = p @ rest \<and> list_all (in_class cl) p \<and> k (i + length p, rest, caps) = Some res"
proof (induction s arbitrary: i)
  case Nil
  then show ?case by simp
next
  case (Cons x xs)
  consider (deeper) "in_class cl x" "star cl (Suc i, xs, caps) k = Some res"
    | (here) "k (i, x # xs, caps) = Some res"
    using Cons.prems by (auto split: if_splits option.splits)
  then show ?case
  proof cases
    case deeper
    from Cons.IH[OF deeper(2)] obtain p rest where
      p: "xs = p @ rest" "list_all (in_class cl) p" "k (Suc i + length p, rest, caps) = Some res"
      by blast
    show ?thesis
      by (rule exI[of _ "x # p"], rule exI[of _ rest]) (use p deeper in simp)
  next
    case here
    then show ?thesis by (intro exI[of _ "[]"] exI[of _ "x # xs"]) simp
  qed
qed

lemma star_complete:
  "star cl (i, p @ rest, caps) k = None \<Longrightarrow> list_all (in_class cl) p \<Longrightarrow>
   k (i + length p, rest, caps) = None"
proof (induction p arbitrary: i)
  case Nil
  then show ?case by (cases rest) (auto split: if_splits option.splits)
next
  case (Cons x xs)
  from Cons.prems have "star cl (Suc i, xs @ rest, caps) k = None"
    by (auto split: option.splits)
  from Cons.IH[OF this] Cons.prems(2) show ?case by simp
qed

lemma matcher_sound:
  "matcher r st k = Some res \<Longrightarrow> \<exists>st'. matches r st st' \<and> k st' = Some res"
proof (induction r arbitrary: st k res)
  case Eps
  then show ?case by (intro exI[of _ st]) (simp add: matches.intros)
next
  case Bol
  then show ?case by (cases st) (auto intro: matches.intros split: if_splits)
next
  case Eol
  then show ?case by (cases st) (auto intro: matches.intros split: if_splits)
next
  case (Chr c)
  then show ?case by (cases st) (auto intro: matches.intros split: if_splits list.splits)
next
  case (Plus cl)
  obtain i s caps where st: "st = (i, s, caps)" by (cases st)
  from Plus st obtain x xs where s: "s = x # xs" and x: "in_class cl x"
    and "star cl (Suc i, xs, caps) k = Some res"
    by (auto split: list.splits if_splits)
  from star_sound[OF this(3)] obtain p rest where
    p: "xs = p @ rest" "list_all (in_class cl) p" "k (Suc i + length p, rest, caps) = Some res"
    by blast
  have "matches (Plus cl) (i, (x # p) @ rest, caps) (i + length (x # p), rest, caps)"
    by (rule m_Plus) (use p x in auto)
  with p s st show ?case by auto
next
  case (Opt r)
  show ?case
  proof (cases "matcher r st k")
    case None
    with Opt.prems have "k st = Some res" by simp
    then show ?thesis by (blast intro: matches.intros)
  next
    case (Some a)
    with Opt.prems have "matcher r st k = Some res" by simp
    from Opt.IH[OF this] show ?thesis by (blast intro: matches.intros)
  qed
next
  case (Seq a b)
  from Seq.prems have "matcher a st (\<lambda>st'. matcher b st' k) = Some res" by simp
  from Seq.IH(1)[OF this] obtain mid where mid: "matches a st mid" "matcher b mid k = Some res"
    by blast
  from Seq.IH(2)[OF mid(2)] mid(1) show ?case by (blast intro: matches.intros)
next
  case (Group n r)
  obtain i s caps where st: "st = (i, s, caps)" by (cases st)
  from Group.prems st have
    "matcher r (i, s, caps) (\<lambda>(j, s', caps'). k (j, s', caps'(n \<mapsto> take (j - i) s))) = Some res"
    by simp
  from Group.IH[OF this] obtain j s' caps' where
    "matches r (i, s, caps) (j, s', caps')" "k (j, s', caps'(n \<mapsto> take (j - i) s)) = Some res"
    by auto
  then show ?case unfolding st by (blast intro: matches.intros)
qed

lemma matcher_complete:
  "matcher r st k = None \<Longrightarrow> matches r st st' \<Longrightarrow> k st' = None"
proof (induction r arbitrary: st k st')
  case Eps
  then show ?case by (auto elim: matches.cases)
next
  case Bol
  then show ?case by (auto elim: matches.cases)
next
  case Eol
  then show ?case by (auto elim: matches.cases)
next
  case (Chr c)
  then show ?case by (auto elim: matches.cases)
next
  case (Plus cl)
  from Plus.prems(2) obtain i p rest caps where
    st: "st = (i, p @ rest, caps)" "st' = (i + length p, rest, caps)" and
    p: "p \<noteq> []" "list_all (in_class cl) p"
    by (auto elim: matches.cases)
  from p obtain x xs where px: "p = x # xs" by (cases p) auto
  from Plus.prems(1) st px p have "star cl (Suc i, xs @ rest, caps) k = None" by auto
  from star_complete[OF this] p px have "k (Suc i + length xs, rest, caps) = None" by auto
  then show ?case using st px by simp
next
  case (Opt r)
  from Opt.prems(1) have 1: "matcher r st k = None" and 2: "k st = None"
    by (auto split: option.splits)
  from Opt.prems(2) have "matches r st st' \<or> st' = st"
    by (auto elim: matches.cases)
  then show ?case using Opt.IH[OF 1] 2 by blast
next
  case (Seq a b)
  from Seq.prems(2) obtain mid where mid: "matches a st mid" "matches b mid st'"
    by (auto elim: matches.cases)
  from Seq.prems(1) have "matcher a st (\<lambda>st'. matcher b st' k) = None" by simp
  from Seq.IH(1)[OF this mid(1)] have "matcher b mid k = None" .
  from Seq.IH(2)[OF this mid(2)] show ?case .
next
  case (Group n r)
  from Group.prems(2) obtain i s caps j s' caps' where
    st: "st = (i, s, caps)" "st' = (j, s', caps'(n \<mapsto> take (j - i) s))" and
    m: "matches r (i, s, caps) (j, s', caps')"
    by (auto elim: matches.cases)
  from Group.prems(1) st have
    "matcher r (i, s, caps) (\<lambda>(j, s', caps'). k (j, s', caps'(n \<mapsto> take (j - i) s))) = None"
    by simp
  from Group.IH[OF this m] show ?case using st by simp
qed

inductive_cases matches_EpsE: "matches Eps st st'"
inductive_cases matches_BolE: "matches Bol st st'"
inductive_cases matches_EolE: "matches Eol st st'"
inductive_cases matches_ChrE: "matches (Chr c) st st'"
inductive_cases matches_PlusE: "matches (Plus cl) st st'"
inductive_cases matches_OptE: "matches (Opt r) st st'"
inductive_cases matches_SeqE: "matches (Seq a b) st st'"
inductive_cases matches_GroupE: "matches (Group n r) st st'"

lemmas matches_elims = matches_EpsE matches_BolE matches_EolE matches_ChrE matches_PlusE
  matches_OptE matches_SeqE matches_GroupE

lemma matches_consumes:
  "matches r st st' \<Longrightarrow> \<exists>p. fst (snd st) = p @ fst (snd st') \<and> fst st' = fst st + length p"
proof (induction rule: matches.induct)
  case (m_Chr c i s caps)
  show ?case by (rule exI[of _ "[c]"]) simp
next
  case (m_Seq a st mid b st')
  then obtain p q where "fst (snd st) = p @ fst (snd mid)" "fst mid = fst st + length p"
    "fst (snd mid) = q @ fst (snd st')" "fst st' = fst mid + length q" by blast
  then show ?case by (intro exI[of _ "p @ q"]) simp
qed auto

lemma isDecimalLiteral_I:
  assumes "ip \<noteq> []" "list_all isDigit ip" "fp \<noteq> []" "list_all isDigit fp"
  shows "isDecimalLiteral (ip @ CHR ''.'' # fp)" "isDecimalLiteral (CHR ''-'' # ip @ CHR ''.'' # fp)"
proof -
  have nd: "\<not> isDigit CHR ''.''" "\<not> isDigit CHR ''-''" by (simp_all add: isDigit_def)
  have tw: "takeWhile isDigit (ip @ CHR ''.'' # fp) = ip"
    using assms(2) nd by (simp add: takeWhile_append2 list_all_iff)
  have dw: "dropWhile isDigit (ip @ CHR ''.'' # fp) = CHR ''.'' # fp"
    using assms(2) nd by (simp add: dropWhile_append2 list_all_iff)
  from assms(1,2) nd have hd: "\<not> startsWith (ip @ CHR ''.'' # fp) ''-''"
    by (cases ip) (auto simp: startsWith_def)
  show "isDecimalLiteral (ip @ CHR ''.'' # fp)"
    using assms tw dw hd by (simp add: isDecimalLiteral_def)
  show "isDecimalLiteral (CHR ''-'' # ip @ CHR ''.'' # fp)"
    using assms tw dw by (simp add: isDecimalLiteral_def startsWith_def)
qed

lemma in_class_eta:
  "in_class Digit = isDigit" "in_class Space = isWhiteSpace"
  by (rule ext, simp)+

lemma matches_decimalRE_D:
  assumes "matches (decimalRE n) (i, s, caps) (j, s', caps')"
  shows "\<exists>d. isDecimalLiteral d \<and> s = d @ s' \<and> j = i + length d \<and> caps' = caps(n \<mapsto> d)"
proof -
  from assms obtain caps0 where
    body: "matches (Seq (Opt (Chr CHR ''-'')) (Seq (Plus Digit) (Seq (Chr CHR ''.'') (Plus Digit))))
             (i, s, caps) (j, s', caps0)"
    and caps': "caps' = caps0(n \<mapsto> take (j - i) s)"
    unfolding decimalRE_def by (auto elim!: matches_GroupE)
  from matches_consumes[OF body] obtain d where d: "s = d @ s'" "j = i + length d" by auto
  from body have "caps0 = caps \<and> isDecimalLiteral d"
    using d by (auto elim!: matches_elims simp: isDecimalLiteral_I in_class_eta)
  with d caps' show ?thesis by auto
qed

lemma exec_from_Bol:
  "0 < i \<Longrightarrow> exec_from (Seq Bol r) i s = None"
  by (induction s arbitrary: i) (auto simp: matchAt_def)

lemma exec_Bol:
  "exec (Seq Bol r) s = matchAt (Seq Bol r) 0 s"
  by (cases s) (auto simp: exec_def exec_from_Bol split: option.splits)

lemma exec_Bol_Some:
  assumes "exec (Seq Bol r) s = Some groups"
  shows "\<exists>j rest caps. matches r (0, s, Map.empty) (j, rest, caps) \<and> groups = caps(0 \<mapsto> take j s)"
proof -
  from assms obtain j rest caps where
    m: "matcher (Seq Bol r) (0, s, Map.empty) Some = Some (j, rest, caps)"
    and g: "groups = caps(0 \<mapsto> take j s)"
    by (auto simp: exec_Bol matchAt_def split: option.splits)
  from matcher_sound[OF m] have "matches (Seq Bol r) (0, s, Map.empty) (j, rest, caps)" by auto
  then have "matches r (0, s, Map.empty) (j, rest, caps)"
    by (auto elim!: matches_SeqE matches_BolE)
  with g show ?thesis by blast
qed

lemma exec_Bol_None:
  assumes "exec (Seq Bol r) s = None"
  shows "\<not> matches r (0, s, Map.empty) st'"
proof
  assume "matches r (0, s, Map.empty) st'"
  then have 1: "matches (Seq Bol r) (0, s, Map.empty) st'" by (blast intro: matches.intros)
  from assms have 2: "matcher (Seq Bol r) (0, s, Map.empty) Some = None"
    by (auto simp: exec_Bol matchAt_def split: option.splits)
  from matcher_complete[OF 2 1] show False by simp
qed

lemma exec_battorDataLineRE_D:
  assumes "exec battorDataLineRE s = Some groups"
  shows "\<exists>g1 w1 g2 w2 g3 rest.
           s = g1 @ w1 @ g2 @ w2 @ g3 @ rest \<and>
           isDecimalLiteral g1 \<and> isDecimalLiteral g2 \<and> isDecimalLiteral g3 \<and>
           w1 \<noteq> [] \<and> list_all isWhiteSpace w1 \<and> w2 \<noteq> [] \<and> list_all isWhiteSpace w2 \<and>
           dataLineTail rest (groups 4) \<and>
           groups 0 = Some s \<and> groups 1 = Some g1 \<and> groups 2 = Some g2 \<and> groups 3 = Some g3"
proof -
  let ?tailRE = "Opt (Seq (Plus Space) (Seq (Chr CHR ''<'') (Seq (Group 4 (Plus NonSpace)) (Chr CHR ''>''))))"
  have re: "battorDataLineRE =
     Seq Bol (Seq (decimalRE 1) (Seq (Plus Space) (Seq (decimalRE 2) (Seq (Plus Space)
       (Seq (decimalRE 3) (Seq ?tailRE Eol))))))"
    by (simp add: battorDataLineRE_def)
  from exec_Bol_Some[OF assms[unfolded re]] obtain j rest caps where
    m: "matches (Seq (decimalRE 1) (Seq (Plus Space) (Seq (decimalRE 2) (Seq (Plus Space)
         (Seq (decimalRE 3) (Seq ?tailRE Eol)))))) (0, s, Map.empty) (j, rest, caps)"
    and g: "groups = caps(0 \<mapsto> take j s)" by blast
  from m obtain i1 s1 c1 i2 s2 c2 i3 s3 c3 i4 s4 c4 i5 s5 c5 i6 s6 c6 where
    d1: "matches (decimalRE 1) (0, s, Map.empty) (i1, s1, c1)" and
    p1: "matches (Plus Space) (i1, s1, c1) (i2, s2, c2)" and
    d2: "matches (decimalRE 2) (i2, s2, c2) (i3, s3, c3)" and
    p2: "matches (Plus Space) (i3, s3, c3) (i4, s4, c4)" and
    d3: "matches (decimalRE 3) (i4, s4, c4) (i5, s5, c5)" and
    tail: "matches ?tailRE (i5, s5, c5) (i6, s6, c6)" and
    eol: "matches Eol (i6, s6, c6) (j, rest, caps)"
    by (elim matches_SeqE) (metis prod_cases3)
  from matches_decimalRE_D[OF d1] obtain g1 where
    g1: "isDecimalLiteral g1" "s = g1 @ s1" "c1 = [1 \<mapsto> g1]" by auto
  from p1 obtain w1 where
    w1: "w1 \<noteq> []" "list_all isWhiteSpace w1" "s1 = w1 @ s2" "c2 = c1"
    by (auto elim!: matches_PlusE simp: in_class_eta)
  from matches_decimalRE_D[OF d2] obtain g2 where
    g2: "isDecimalLiteral g2" "s2 = g2 @ s3" "c3 = c2(2 \<mapsto> g2)" by auto
  from p2 obtain w2 where
    w2: "w2 \<noteq> []" "list_all isWhiteSpace w2" "s3 = w2 @ s4" "c4 = c3"
    by (auto elim!: matches_PlusE simp: in_class_eta)
  from matches_decimalRE_D[OF d3] obtain g3 where
    g3: "isDecimalLiteral g3" "s4 = g3 @ s5" "c5 = c4(3 \<mapsto> g3)" by auto
  from eol have e: "s6 = []" "rest = []" "caps = c6" "j = i6" by (auto elim!: matches_EolE)
  from matches_consumes[OF m] e have j: "j = length s" by auto
  have c54: "c5 4 = None" using g1 w1 g2 w2 g3 by simp
  from tail have t: "dataLineTail s5 (c6 4) \<and> c6 1 = c5 1 \<and> c6 2 = c5 2 \<and> c6 3 = c5 3"
  proof (rule matches_OptE)
    assume "(i6, s6, c6) = (i5, s5, c5)"
    with e c54 show ?thesis by (simp add: dataLineTail_def)
  next
    assume "matches (Seq (Plus Space) (Seq (Chr CHR ''<'') (Seq (Group 4 (Plus NonSpace)) (Chr CHR ''>''))))
             (i5, s5, c5) (i6, s6, c6)"
    then obtain ws b k where "ws \<noteq> []" "list_all isWhiteSpace ws" "b \<noteq> []"
      "list_all (in_class NonSpace) b" "s5 = ws @ CHR ''<'' # b @ CHR ''>'' # s6"
      "c6 = c5(4 \<mapsto> take k (b @ CHR ''>'' # s6))" "k = length b"
      by (auto elim!: matches_elims simp: in_class_eta)
    moreover have "list_all (in_class NonSpace) b = list_all (\<lambda>c. \<not> isWhiteSpace c) b"
      by (simp add: list_all_iff)
    ultimately show ?thesis using e by (auto simp: dataLineTail_def)
  qed
  show ?thesis
    apply (rule exI[of _ g1], rule exI[of _ w1], rule exI[of _ g2], rule exI[of _ w2],
           rule exI[of _ g3], rule exI[of _ s5])
    using g1 w1 g2 w2 g3 t g j e by simp
qed

text \<open>
  Conversely a string of the data-line shape is matched, so \<open>battorDataLineRE\<close> accepts
  exactly: three decimal literals separated by white space, then nothing or white space and
  a non-empty bracketed token without white space.
\<close>

lemma isDecimalLiteral_D:
  assumes "isDecimalLiteral d"
  shows "\<exists>sgn ip fp. d = sgn @ ip @ CHR ''.'' # fp \<and> (sgn = [] \<or> sgn = ''-'') \<and>
           ip \<noteq> [] \<and> list_all isDigit ip \<and> fp \<noteq> [] \<and> list_all isDigit fp"
proof -
  define body where "body = (if startsWith d ''-'' then tl d else d)"
  define sgn where "sgn = (if startsWith d ''-'' then ''-'' else [])"
  have d: "d = sgn @ body"
    unfolding sgn_def body_def by (cases d) (auto simp: startsWith_def)
  from assms obtain fp where ip: "takeWhile isDigit body \<noteq> []"
    and rest: "dropWhile isDigit body = CHR ''.'' # fp" and fp: "fp \<noteq> []" "list_all isDigit fp"
    by (auto simp: isDecimalLiteral_def Let_def body_def split: list.splits)
  have "body = takeWhile isDigit body @ CHR ''.'' # fp"
    using takeWhile_dropWhile_id[of isDigit body] rest by simp
  moreover have "list_all isDigit (takeWhile isDigit body)"
    by (auto simp: list_all_iff dest: set_takeWhileD)
  ultimately show ?thesis
    using d ip fp sgn_def by (metis append_assoc)
qed

lemma matches_decimalRE_I:
  assumes "isDecimalLiteral d"
  shows "matches (decimalRE n) (i, d @ s', caps) (i + length d, s', caps(n \<mapsto> d))"
proof -
  from isDecimalLiteral_D[OF assms] obtain sgn ip fp where
    d: "d = sgn @ ip @ CHR ''.'' # fp" and sgn: "sgn = [] \<or> sgn = ''-''" and
    ip: "ip \<noteq> []" "list_all isDigit ip" and fp: "fp \<noteq> []" "list_all isDigit fp"
    by blast
  have 1: "matches (Opt (Chr CHR ''-'')) (i, d @ s', caps)
             (i + length sgn, ip @ CHR ''.'' # fp @ s', caps)"
    using sgn
  proof
    assume "sgn = []"
    then show ?thesis using d by (simp add: m_OptNone)
  next
    assume "sgn = ''-''"
    then show ?thesis using d m_Chr[of "CHR ''-''" i "ip @ CHR ''.'' # fp @ s'" caps]
      by (simp add: m_OptSome)
  qed
  have 2: "matches (Plus Digit) (i + length sgn, ip @ CHR ''.'' # fp @ s', caps)
             (i + length sgn + length ip, CHR ''.'' # fp @ s', caps)"
    using m_Plus[of ip Digit "i + length sgn" "CHR ''.'' # fp @ s'" caps] ip
    by (simp add: in_class_eta)
  have 3: "matches (Chr CHR ''.'') (i + length sgn + length ip, CHR ''.'' # fp @ s', caps)
             (Suc (i + length sgn + length ip), fp @ s', caps)"
    by (rule m_Chr)
  have 4: "matches (Plus Digit) (Suc (i + length sgn + length ip), fp @ s', caps)
             (Suc (i + length sgn + length ip) + length fp, s', caps)"
    using m_Plus[of fp Digit "Suc (i + length sgn + length ip)" s' caps] fp
    by (simp add: in_class_eta)
  have len: "Suc (i + length sgn + length ip) + length fp = i + length d"
    using d by simp
  have "matches (Seq (Opt (Chr CHR ''-'')) (Seq (Plus Digit) (Seq (Chr CHR ''.'') (Plus Digit))))
          (i, d @ s', caps) (i + length d, s', caps)"
    using 1 2 3 4 unfolding len by (blast intro: m_Seq)
  from m_Group[OF this, of n] show ?thesis by (simp add: decimalRE_def)
qed

lemma exec_battorDataLineRE_I:
  assumes "isDecimalLiteral g1" "isDecimalLiteral g2" "isDecimalLiteral g3"
    and "w1 \<noteq> []" "list_all isWhiteSpace w1" "w2 \<noteq> []" "list_all isWhiteSpace w2"
    and "dataLineTail rest g4"
  shows "exec battorDataLineRE (g1 @ w1 @ g2 @ w2 @ g3 @ rest) \<noteq> None"
proof
  let ?s = "g1 @ w1 @ g2 @ w2 @ g3 @ rest"
  let ?tailRE = "Opt (Seq (Plus Space) (Seq (Chr CHR ''<'') (Seq (Group 4 (Plus NonSpace)) (Chr CHR ''>''))))"
  let ?r = "Seq (decimalRE 1) (Seq (Plus Space) (Seq (decimalRE 2) (Seq (Plus Space)
       (Seq (decimalRE 3) (Seq ?tailRE Eol)))))"
  have re: "battorDataLineRE = Seq Bol ?r"
    by (simp add: battorDataLineRE_def)
  assume "exec battorDataLineRE ?s = None"
  then have none: "\<And>st'. \<not> matches ?r (0, ?s, Map.empty) st'"
    unfolding re by (rule exec_Bol_None)
  define c3 :: captures where "c3 = [1 \<mapsto> g1, 2 \<mapsto> g2, 3 \<mapsto> g3]"
  define i5 where "i5 = length g1 + length w1 + length g2 + length w2 + length g3"
  have d1: "matches (decimalRE 1) (0, ?s, Map.empty) (length g1, w1 @ g2 @ w2 @ g3 @ rest, [1 \<mapsto> g1])"
    using matches_decimalRE_I[OF assms(1), of 1 0 "w1 @ g2 @ w2 @ g3 @ rest" Map.empty] by simp
  have p1: "matches (Plus Space) (length g1, w1 @ g2 @ w2 @ g3 @ rest, [1 \<mapsto> g1])
              (length g1 + length w1, g2 @ w2 @ g3 @ rest, [1 \<mapsto> g1])"
    using assms(4,5) by (intro m_Plus) (simp_all add: in_class_eta)
  have d2: "matches (decimalRE 2) (length g1 + length w1, g2 @ w2 @ g3 @ rest, [1 \<mapsto> g1])
              (length g1 + length w1 + length g2, w2 @ g3 @ rest, [1 \<mapsto> g1, 2 \<mapsto> g2])"
    using matches_decimalRE_I[OF assms(2)] by simp
  have p2: "matches (Plus Space) (length g1 + length w1 + length g2, w2 @ g3 @ rest, [1 \<mapsto> g1, 2 \<mapsto> g2])
              (length g1 + length w1 + length g2 + length w2, g3 @ rest, [1 \<mapsto> g1, 2 \<mapsto> g2])"
    using assms(6,7) by (intro m_Plus) (simp_all add: in_class_eta)
  have d3: "matches (decimalRE 3) (length g1 + length w1 + length g2 + length w2, g3 @ rest, [1 \<mapsto> g1, 2 \<mapsto> g2])
              (i5, rest, c3)"
    unfolding i5_def c3_def using matches_decimalRE_I[OF assms(3)] by simp
  have "\<exists>j caps. matches ?tailRE (i5, rest, c3) (j, [], caps)"
    using assms(8) unfolding dataLineTail_def
  proof (elim disjE conjE exE)
    assume "rest = []"
    then show ?thesis by (auto intro: m_OptNone)
  next
    fix ws b
    assume ws: "ws \<noteq> []" "list_all isWhiteSpace ws" and b: "b \<noteq> []" "list_all (\<lambda>c. \<not> isWhiteSpace c) b"
      and rest: "rest = ws @ ''<'' @ b @ ''>''"
    have nb: "list_all (in_class NonSpace) b" using b(2) by (simp add: list_all_iff)
    have a: "matches (Plus Space) (i5, rest, c3) (i5 + length ws, CHR ''<'' # b @ ''>'', c3)"
      unfolding rest using m_Plus[of ws Space i5 "CHR ''<'' # b @ ''>''" c3] ws
      by (simp add: in_class_eta)
    have b1: "matches (Chr CHR ''<'') (i5 + length ws, CHR ''<'' # b @ ''>'', c3)
               (Suc (i5 + length ws), b @ ''>'', c3)"
      by (rule m_Chr)
    have c: "matches (Group 4 (Plus NonSpace)) (Suc (i5 + length ws), b @ ''>'', c3)
               (Suc (i5 + length ws) + length b, ''>'', c3(4 \<mapsto> take (Suc (i5 + length ws) + length b - Suc (i5 + length ws)) (b @ ''>'')))"
      by (rule m_Group, rule m_Plus) (use b nb in simp_all)
    have e: "matches (Chr CHR ''>'') (Suc (i5 + length ws) + length b, ''>'',
                c3(4 \<mapsto> take (Suc (i5 + length ws) + length b - Suc (i5 + length ws)) (b @ ''>'')))
              (Suc (Suc (i5 + length ws) + length b), [],
                c3(4 \<mapsto> take (Suc (i5 + length ws) + length b - Suc (i5 + length ws)) (b @ ''>'')))"
      by (rule m_Chr)
    from a b1 c e show ?thesis by (blast intro: m_Seq m_OptSome)
  qed
  then obtain j caps where t: "matches ?tailRE (i5, rest, c3) (j, [], caps)" by blast
  have "matches Eol (j, [], caps) (j, [], caps)" by (rule m_Eol)
  with d1 p1 d2 p2 d3 t have "matches ?r (0, ?s, Map.empty) (j, [], caps)"
    by (blast intro: m_Seq)
  with none show False by blast
qed

lemma exec_battorDataLineRE_iff:
  "exec battorDataLineRE s \<noteq> None \<longleftrightarrow>
     (\<exists>g1 w1 g2 w2 g3 rest g4.
        s = g1 @ w1 @ g2 @ w2 @ g3 @ rest \<and>
        isDecimalLiteral g1 \<and> isDecimalLiteral g2 \<and> isDecimalLiteral g3 \<and>
        w1 \<noteq> [] \<and> list_all isWhiteSpace w1 \<and> w2 \<noteq> [] \<and> list_all isWhiteSpace w2 \<and>
        dataLineTail rest g4)"
proof
  assume "exec battorDataLineRE s \<noteq> None"
  then obtain groups where "exec battorDataLineRE s = Some groups" by auto
  from exec_battorDataLineRE_D[OF this] show "\<exists>g1 w1 g2 w2 g3 rest g4.
        s = g1 @ w1 @ g2 @ w2 @ g3 @ rest \<and>
        isDecimalLiteral g1 \<and> isDecimalLiteral g2 \<and> isDecimalLiteral g3 \<and>
        w1 \<noteq> [] \<and> list_all isWhiteSpace w1 \<and> w2 \<noteq> [] \<and> list_all isWhiteSpace w2 \<and>
        dataLineTail rest g4"
    by blast
next
  assume "\<exists>g1 w1 g2 w2 g3 rest g4.
        s = g1 @ w1 @ g2 @ w2 @ g3 @ rest \<and>
        isDecimalLiteral g1 \<and> isDecimalLiteral g2 \<and> isDecimalLiteral g3 \<and>
        w1 \<noteq> [] \<and> list_all isWhiteSpace w1 \<and> w2 \<noteq> [] \<and> list_all isWhiteSpace w2 \<and>
        dataLineTail rest g4"
  then show "exec battorDataLineRE s \<noteq> None"
    using exec_battorDataLineRE_I by blast
qed

section \<open>Parsing line by line\<close>

lemma linesToSamplesLoop_closed:
  "linesToSamplesLoop ls acc m =
     (acc @ concat (map lineSamples ls),
      m\<lparr>importWarnings := importWarnings m @ concat (map lineWarnings ls)\<rparr>)"
proof (induction ls arbitrary: acc m)
  case Nil
  show ?case by simp
next
  case (Cons l ls)
  show ?case
    by (simp add: Cons.IH Let_def lineSamples_def lineWarnings_def importWarning_def
        emptyModel_def split: option.splits)
qed

lemma linesToSamples_closed:
  "linesToSamples m ls =
     (concat (map lineSamples ls),
      m\<lparr>importWarnings := importWarnings m @ concat (map lineWarnings ls)\<rparr>)"
  by (simp add: linesToSamples_def linesToSamplesLoop_closed)

lemma isDecimalLiteral_hd:
  assumes "isDecimalLiteral d"
  shows "d \<noteq> [] \<and> (hd d = CHR ''-'' \<or> isDigit (hd d))"
proof (cases "startsWith d ''-''")
  case True
  then show ?thesis by (cases d) (auto simp: startsWith_def)
next
  case False
  with assms have "takeWhile isDigit d \<noteq> []"
    by (simp add: isDecimalLiteral_def Let_def)
  then show ?thesis by (cases d) (auto split: if_splits)
qed

lemma exec_battorDataLineRE_hd:
  assumes "exec battorDataLineRE s = Some groups"
  shows "s \<noteq> []" "\<not> startsWith s ''#''"
proof -
  from exec_battorDataLineRE_D[OF assms] obtain g1 rest where
    s: "s = g1 @ rest" and d: "isDecimalLiteral g1" by blast
  from isDecimalLiteral_hd[OF d] have g1: "g1 \<noteq> []" "hd g1 = CHR ''-'' \<or> isDigit (hd g1)" by auto
  from g1 s show "s \<noteq> []" by simp
  from g1 s have "hd s = CHR ''-'' \<or> isDigit (hd s)" by simp
  then have "hd s \<noteq> CHR ''#''" by (auto simp: isDigit_def)
  with \<open>s \<noteq> []\<close> show "\<not> startsWith s ''#''" by (cases s) (auto simp: startsWith_def)
qed

lemma exec_battorDataLineRE_syncId:
  assumes "exec battorDataLineRE s = Some groups"
  shows "groups 4 \<noteq> Some []"
  using exec_battorDataLineRE_D[OF assms] by (auto simp: dataLineTail_def)

lemma exec_battorDataLineRE_shape:
  assumes "exec battorDataLineRE s = Some groups"
  shows "isDecimalLiteral (capture groups 1) \<and> isDecimalLiteral (capture groups 2) \<and>
         isDecimalLiteral (capture groups 3)"
  using exec_battorDataLineRE_D[OF assms] by (auto simp: capture_def)

lemma line_blank:
  "trim l = [] \<Longrightarrow> lineSamples l = [] \<and> lineWarnings l = []"
  by (simp add: lineSamples_def lineWarnings_def emptyModel_def Let_def)

lemma line_comment:
  "startsWith (trim l) ''#'' \<Longrightarrow> lineSamples l = [] \<and> lineWarnings l = []"
  by (simp add: lineSamples_def lineWarnings_def emptyModel_def Let_def)

lemma line_unrecognized:
  assumes "trim l \<noteq> []" "\<not> startsWith (trim l) ''#''" "exec battorDataLineRE (trim l) = None"
  shows "lineSamples l = [] \<and> lineWarnings l = [unrecognizedLine (trim l)]"
  using assms by (simp add: lineSamples_def lineWarnings_def emptyModel_def importWarning_def Let_def)

lemma roundTiesToEven_of_int: "roundTiesToEven (of_int z) = z"
  by (simp add: roundTiesToEven_def)

lemma roundToDouble_exact:
  assumes "m = of_int n * pow2 k" "0 \<le> n" "n < 2 ^ 53" "- 1074 \<le> k" "m < pow2 1024"
  shows "roundToDouble neg m = Finite neg m"
proof (cases "m = 0")
  case True
  then show ?thesis by (simp add: roundToDouble_def)
next
  case False
  with assms(1,2) pow2_pos[of k] have m: "0 < m" and n: "0 < n"
    by (auto simp: zero_less_mult_iff less_le)
  define e where "e = max (floorLog2 m) (- 1022)"
  have "pow2 (floorLog2 m) \<le> m" using floorLog2_bounds[OF m] by simp
  also have "m < pow2 (53 + k)"
  proof -
    have "(of_int n :: rat) < of_int (2 ^ 53)" using assms(3) by (simp only: of_int_less_iff)
    then have "(of_int n :: rat) < pow2 53" by (simp add: pow2_def)
    then have "of_int n * pow2 k < pow2 53 * pow2 k" using pow2_pos[of k] by simp
    then show ?thesis by (simp add: assms(1) pow2_add)
  qed
  finally have "floorLog2 m < 53 + k"
    using pow2_mono[of "53 + k" "floorLog2 m"] by force
  with assms(4) have ek: "e - 52 \<le> k" by (simp add: e_def)
  define j where "j = nat (k - (e - 52))"
  have "pow2 k = pow2 (e - 52) * pow2 (int j)"
    using ek pow2_add[of "e - 52" "int j"] by (simp add: j_def)
  then have q: "m / pow2 (e - 52) = of_int (n * 2 ^ j)"
    using pow2_pos[of "e - 52"] by (simp add: assms(1) pow2_def)
  have "of_int (roundTiesToEven (m / pow2 (e - 52))) * pow2 (e - 52) = m"
    unfolding q roundTiesToEven_of_int using q pow2_pos[of "e - 52"]
    by (metis nonzero_eq_divide_eq less_irrefl)
  then show ?thesis
    using False assms(5) by (simp add: roundToDouble_def Let_def e_def[symmetric])
qed

lemma roundToDouble_examples:
  "roundToDouble neg 0 = Finite neg 0" "roundToDouble neg 1 = Finite neg 1"
  "roundToDouble neg 2 = Finite neg 2" "roundToDouble neg 500 = Finite neg 500"
  "roundToDouble neg 1000 = Finite neg 1000" "roundToDouble neg (1 / 2) = Finite neg (1 / 2)"
  using roundToDouble_exact[of 1 1 0 neg] roundToDouble_exact[of 2 2 0 neg]
    roundToDouble_exact[of 500 500 0 neg] roundToDouble_exact[of 1000 1000 0 neg]
    roundToDouble_exact[of "1 / 2" 1 "- 1" neg]
  by (simp_all add: roundToDouble_def pow2_def)

lemma numberLiteral_simps:
  "numberLiteral 0 = Finite False 0" "numberLiteral 1000 = Finite False 1000"
  "numberLiteral 2 = Finite False 2"
  by (simp_all add: numberLiteral_def roundToDouble_examples)

lemma decimalMagnitude_nonneg: "0 \<le> decimalMagnitude g"
  by (simp add: decimalMagnitude_def)

lemma nonnegative_field_not_negative:
  assumes "0 \<le> decimalValue g"
  shows "\<not> numLess (numDivide (parseFloat g) (numberLiteral 1000)) (numberLiteral 0)"
proof (cases "parseFloat g = NaN")
  case True
  then show ?thesis by (simp add: numberLiteral_simps)
next
  case False
  then have pf: "parseFloat g = roundToDouble (literalNegative g) (decimalMagnitude g)"
    by (simp add: parseFloat_def split: if_splits)
  show ?thesis
  proof (cases "literalNegative g")
    case True
    with assms decimalMagnitude_nonneg[of g] have "decimalMagnitude g = 0"
      by (simp add: decimalValue_def signedValue_def)
    then show ?thesis
      by (simp add: pf numberLiteral_simps roundToDouble_def signedValue_def)
  next
    case neg: False
    from decimalMagnitude_nonneg[of g] show ?thesis
    proof (cases rule: roundToDouble_cases[where neg = False])
      case (finite r)
      from \<open>0 \<le> r\<close> have "0 \<le> r / 1000" by simp
      then show ?thesis
      proof (cases rule: roundToDouble_cases[where neg = False])
        case (finite r')
        then show ?thesis using \<open>roundToDouble False (decimalMagnitude g) = Finite False r\<close> neg
          by (simp add: pf numberLiteral_simps signedValue_def)
      next
        case infinite
        then show ?thesis using \<open>roundToDouble False (decimalMagnitude g) = Finite False r\<close> neg
          by (simp add: pf numberLiteral_simps)
      qed
    next
      case infinite
      then show ?thesis using neg by (simp add: pf numberLiteral_simps)
    qed
  qed
qed

lemma line_negative:
  assumes "exec battorDataLineRE (trim l) = Some groups"
    "numLess (numDivide (parseFloat (capture groups 2)) (numberLiteral 1000)) (numberLiteral 0) \<or>
     numLess (numDivide (parseFloat (capture groups 3)) (numberLiteral 1000)) (numberLiteral 0)"
  shows "lineSamples l = [] \<and> lineWarnings l = [negativeLine (trim l)]"
  using assms exec_battorDataLineRE_hd[OF assms(1)]
  by (auto simp add: lineSamples_def lineWarnings_def emptyModel_def importWarning_def Let_def)

lemma line_sample:
  assumes "exec battorDataLineRE (trim l) = Some groups"
    "\<not> numLess (numDivide (parseFloat (capture groups 2)) (numberLiteral 1000)) (numberLiteral 0)"
    "\<not> numLess (numDivide (parseFloat (capture groups 3)) (numberLiteral 1000)) (numberLiteral 0)"
  shows "lineSamples l =
           [newSample (parseFloat (capture groups 1))
              (numDivide (parseFloat (capture groups 2)) (numberLiteral 1000))
              (numDivide (parseFloat (capture groups 3)) (numberLiteral 1000)) (groups 4)] \<and>
         lineWarnings l = []"
  using assms exec_battorDataLineRE_hd[OF assms(1)]
  by (auto simp add: lineSamples_def lineWarnings_def emptyModel_def importWarning_def Let_def)

lemma lineSamples_syncId:
  "s \<in> set (lineSamples l) \<Longrightarrow> syncId s \<noteq> Some []"
  by (auto simp: lineSamples_def Let_def newSample_def
      dest: exec_battorDataLineRE_syncId split: if_splits option.splits)

lemma linesToSamples_syncId:
  "s \<in> set (fst (linesToSamples m ls)) \<Longrightarrow> syncId s \<noteq> Some []"
  by (auto simp: linesToSamples_closed dest: lineSamples_syncId)

lemma isDecimalLiteral_parseFloat:
  assumes "isDecimalLiteral d"
  shows "parseFloat d \<noteq> NaN"
proof -
  have "literalNegative d = startsWith d ''-''"
    by (cases d) (auto simp: literalNegative_def startsWith_def)
  with assms have "literalIntegerPart d \<noteq> []"
    by (simp add: isDecimalLiteral_def literalIntegerPart_def Let_def)
  then show ?thesis
    by (simp add: parseFloat_def roundToDouble_def Let_def)
qed

lemma exec_line0:
  "exec battorDataLineRE ''0.0 1000.0 500.0'' =
     Some [1 \<mapsto> ''0.0'', 2 \<mapsto> ''1000.0'', 3 \<mapsto> ''500.0'', 0 \<mapsto> ''0.0 1000.0 500.0'']"
  by (simp add: exec_def matchAt_def battorDataLineRE_def decimalRE_def isDigit_def isWhiteSpace_def)

lemma exec_line1:
  "exec battorDataLineRE ''1.0 1000.0 500.0 <sync1>'' =
     Some [1 \<mapsto> ''1.0'', 2 \<mapsto> ''1000.0'', 3 \<mapsto> ''500.0'', 4 \<mapsto> ''sync1'',
           0 \<mapsto> ''1.0 1000.0 500.0 <sync1>'']"
  by (simp add: exec_def matchAt_def battorDataLineRE_def decimalRE_def isDigit_def isWhiteSpace_def)

lemma exec_negative_line:
  "exec battorDataLineRE ''1.0 1000.0 -500.0'' =
     Some [1 \<mapsto> ''1.0'', 2 \<mapsto> ''1000.0'', 3 \<mapsto> ''-500.0'', 0 \<mapsto> ''1.0 1000.0 -500.0'']"
  by (simp add: exec_def matchAt_def battorDataLineRE_def decimalRE_def isDigit_def isWhiteSpace_def)

lemma decimalMagnitude_examples:
  "decimalMagnitude ''0.0'' = 0" "decimalMagnitude ''1.0'' = 1" "decimalMagnitude ''1000.0'' = 1000"
  "decimalMagnitude ''500.0'' = 500" "decimalMagnitude ''-500.0'' = 500"
  by (simp_all add: decimalMagnitude_def literalIntegerPart_def literalFractionPart_def
      literalNegative_def isDigit_def digitsToNat_def digitValue_def)

lemma parseFloat_examples:
  "parseFloat ''0.0'' = Finite False 0" "parseFloat ''1.0'' = Finite False 1"
  "parseFloat ''1000.0'' = Finite False 1000" "parseFloat ''500.0'' = Finite False 500"
  "parseFloat ''-500.0'' = Finite True 500"
proof -
  have ip: "literalIntegerPart ''0.0'' \<noteq> []" "literalIntegerPart ''1.0'' \<noteq> []"
    "literalIntegerPart ''1000.0'' \<noteq> []" "literalIntegerPart ''500.0'' \<noteq> []"
    "literalIntegerPart ''-500.0'' \<noteq> []"
    by (simp_all add: literalIntegerPart_def literalNegative_def isDigit_def)
  have sg: "\<not> literalNegative ''0.0''" "\<not> literalNegative ''1.0''" "\<not> literalNegative ''1000.0''"
    "\<not> literalNegative ''500.0''" "literalNegative ''-500.0''"
    by (simp_all add: literalNegative_def)
  show "parseFloat ''0.0'' = Finite False 0" "parseFloat ''1.0'' = Finite False 1"
    "parseFloat ''1000.0'' = Finite False 1000" "parseFloat ''500.0'' = Finite False 500"
    "parseFloat ''-500.0'' = Finite True 500"
    by (simp_all add: parseFloat_def ip sg decimalMagnitude_examples roundToDouble_examples)
qed

lemma trim_examples:
  "trim ''# BattOr'' = ''# BattOr''" "trim [] = []"
  "trim ''0.0 1000.0 500.0'' = ''0.0 1000.0 500.0''"
  "trim ''1.0 1000.0 500.0'' = ''1.0 1000.0 500.0''"
  "trim ''1.0 1000.0 500.0 <sync1>'' = ''1.0 1000.0 500.0 <sync1>''"
  by (simp_all add: trim_def isWhiteSpace_def)

lemma end_to_end_parse:
  "newBattorImporter emptyModel ''# BattOr\<newline>0.0 1000.0 500.0\<newline>1.0 1000.0 500.0 <sync1>\<newline>'' =
     \<lparr>importPriority = 3, this_model = emptyModel,
      this_samples =
        [\<lparr>ts = Finite False 0, voltage = Finite False 1, current = Finite False (1 / 2),
          syncId = None\<rparr>,
         \<lparr>ts = Finite False 1, voltage = Finite False 1, current = Finite False (1 / 2),
          syncId = Some ''sync1''\<rparr>]\<rparr>"
proof -
  have "linesToSamples emptyModel
          [''# BattOr'', ''0.0 1000.0 500.0'', ''1.0 1000.0 500.0 <sync1>'', []] =
        ([\<lparr>ts = Finite False 0, voltage = Finite False 1, current = Finite False (1 / 2),
           syncId = None\<rparr>,
          \<lparr>ts = Finite False 1, voltage = Finite False 1, current = Finite False (1 / 2),
           syncId = Some ''sync1''\<rparr>], emptyModel)"
    by (simp add: linesToSamples_def trim_examples exec_line0 exec_line1 startsWith_def
        capture_def parseFloat_examples numberLiteral_simps roundToDouble_examples signedValue_def
        newSample_def Let_def)
  then show ?thesis by (simp add: newBattorImporter_def)
qed

lemma tiny_trim: "trim tinyNegativeLine = tinyNegativeLine"
  by (simp add: tinyNegativeLine_def tinyNegativeField_def trim_def isWhiteSpace_def)

lemma tiny_exec:
  "exec battorDataLineRE tinyNegativeLine =
     Some [1 \<mapsto> ''1.0'', 2 \<mapsto> tinyNegativeField, 3 \<mapsto> ''500.0'', 0 \<mapsto> tinyNegativeLine]"
  by (simp add: tinyNegativeLine_def tinyNegativeField_def exec_def matchAt_def battorDataLineRE_def
      decimalRE_def isDigit_def isWhiteSpace_def)

lemma tiny_magnitude: "decimalMagnitude tinyNegativeField = 1 / 10 ^ 331"
  by (simp add: tinyNegativeField_def decimalMagnitude_def literalIntegerPart_def
      literalFractionPart_def literalNegative_def isDigit_def digitsToNat_def digitValue_def)

lemma tiny_sign: "literalNegative tinyNegativeField" "literalIntegerPart tinyNegativeField \<noteq> []"
  by (simp_all add: tinyNegativeField_def literalNegative_def literalIntegerPart_def isDigit_def)

lemma tiny_hd: "tinyNegativeLine \<noteq> []" "\<not> startsWith tinyNegativeLine ''#''"
  by (simp_all add: tinyNegativeLine_def startsWith_def)

lemma tiny_parseFloat: "parseFloat tinyNegativeField = Finite True 0"
proof -
  have "(1::rat) / 10 ^ 331 \<le> pow2 (- 1075)"
    by (simp add: pow2_def field_simps)
  from roundToDouble_underflow[OF _ this, of True] show ?thesis
    by (simp add: parseFloat_def tiny_sign tiny_magnitude)
qed

section \<open>Claims about line parsing\<close>

text \<open>
  Claim C1.  A line whose trimmed text matches \<open>battorDataLineRE\<close> and whose second and third
  fields are not negative yields exactly one sample and no warning, alone and between any
  other lines.  The sample's voltage is the second field divided by 1000, its current is
  the third field divided by 1000, and its power is voltage times current.  The input
  \<open>"# BattOr\n0.0 1000.0 500.0\n1.0 1000.0 500.0 <sync1>\n"\<close> yields two samples, each of
  power 0.5, and no warning.
\<close>

theorem valid_line_yields_sample:
  assumes "exec battorDataLineRE (trim line) = Some groups"
    and "0 \<le> decimalValue (capture groups 2)" and "0 \<le> decimalValue (capture groups 3)"
  shows "(let sample = \<lparr>ts = parseFloat (capture groups 1),
                         voltage = numDivide (parseFloat (capture groups 2)) (numberLiteral 1000),
                         current = numDivide (parseFloat (capture groups 3)) (numberLiteral 1000),
                         syncId = groups 4\<rparr>
          in linesToSamples model [line] = ([sample], model) \<and>
             linesToSamples model (pre @ line # post) =
               (let (s1, m1) = linesToSamples model pre;
                    (s2, m2) = linesToSamples m1 post
                in (s1 @ sample # s2, m2)) \<and>
             power' sample = numTimes (voltage sample) (current sample)) \<and>
         (let imp = newBattorImporter emptyModel
                      ''# BattOr\<newline>0.0 1000.0 500.0\<newline>1.0 1000.0 500.0 <sync1>\<newline>''
          in length (this_samples imp) = 2 \<and>
             map power' (this_samples imp) = [Finite False (1 / 2), Finite False (1 / 2)] \<and>
             importWarnings (this_model imp) = [])"
proof -
  note ls = line_sample[OF assms(1) nonnegative_field_not_negative[OF assms(2)]
      nonnegative_field_not_negative[OF assms(3)]]
  have "linesToSamples model [line] =
          ([newSample (parseFloat (capture groups 1))
              (numDivide (parseFloat (capture groups 2)) (numberLiteral 1000))
              (numDivide (parseFloat (capture groups 3)) (numberLiteral 1000)) (groups 4)], model)"
    by (simp add: linesToSamples_closed ls)
  moreover have "linesToSamples model (pre @ line # post) =
      (let (s1, m1) = linesToSamples model pre; (s2, m2) = linesToSamples m1 post
       in (s1 @ newSample (parseFloat (capture groups 1))
              (numDivide (parseFloat (capture groups 2)) (numberLiteral 1000))
              (numDivide (parseFloat (capture groups 3)) (numberLiteral 1000)) (groups 4) # s2, m2))"
    by (simp add: linesToSamples_closed ls)
  moreover have "let imp = newBattorImporter emptyModel
                      ''# BattOr\<newline>0.0 1000.0 500.0\<newline>1.0 1000.0 500.0 <sync1>\<newline>''
          in length (this_samples imp) = 2 \<and>
             map power' (this_samples imp) = [Finite False (1 / 2), Finite False (1 / 2)] \<and>
             importWarnings (this_model imp) = []"
    by (simp add: end_to_end_parse power'_def roundToDouble_examples) (simp add: emptyModel_def)
  ultimately show ?thesis
    by (simp add: Let_def newSample_def power'_def)
qed

theorem valid_line_yields_sample_witness:
  "exec battorDataLineRE (trim ''1.0 1000.0 500.0 <sync1>'') \<noteq> None \<and>
   linesToSamples emptyModel [''1.0 1000.0 500.0 <sync1>''] =
     ([\<lparr>ts = Finite False 1, voltage = Finite False 1, current = Finite False (1 / 2),
        syncId = Some ''sync1''\<rparr>], emptyModel)"
proof -
  let ?g = "[1 \<mapsto> ''1.0'', 2 \<mapsto> ''1000.0'', 3 \<mapsto> ''500.0'', 4 \<mapsto> ''sync1'',
             0 \<mapsto> ''1.0 1000.0 500.0 <sync1>'']"
  have e: "exec battorDataLineRE (trim ''1.0 1000.0 500.0 <sync1>'') = Some ?g"
    by (simp add: trim_examples exec_line1)
  have h: "0 \<le> decimalValue (capture ?g 2)" "0 \<le> decimalValue (capture ?g 3)"
    by (simp_all add: capture_def decimalValue_def signedValue_def decimalMagnitude_examples
        literalNegative_def)
  have v: "parseFloat (capture ?g 1) = Finite False 1" "parseFloat (capture ?g 2) = Finite False 1000"
    "parseFloat (capture ?g 3) = Finite False 500"
    by (simp_all add: capture_def parseFloat_examples)
  from valid_line_yields_sample[OF e h, of emptyModel "[]" "[]"] v e show ?thesis
    by (simp add: Let_def numberLiteral_simps roundToDouble_examples)
qed

text \<open>
  Claim C2.  A line whose trimmed text is not empty, does not start with \<open>#\<close> and does not
  match \<open>battorDataLineRE\<close> adds exactly one warning, of type \<open>parse_error\<close>, whose message
  ends with the trimmed text of the line, and adds no sample; the lines before and after
  it are parsed as they would be without it.  Parsing is a total function: it returns the
  samples and the model, there is no failing outcome.
\<close>

theorem malformed_line_yields_warning:
  assumes "trim line \<noteq> []" and "\<not> startsWith (trim line) ''#''"
    and "exec battorDataLineRE (trim line) = None"
  shows "linesToSamples model [line] = ([], importWarning model (unrecognizedLine (trim line))) \<and>
         linesToSamples model (pre @ line # post) =
           (let (s1, m1) = linesToSamples model pre;
                (s2, m2) = linesToSamples (importWarning m1 (unrecognizedLine (trim line))) post
            in (s1 @ s2, m2)) \<and>
         type (unrecognizedLine (trim line)) = ''parse_error'' \<and>
         message (unrecognizedLine (trim line)) = ''Unrecognized line in BattOr trace: '' @ trim line \<and>
         length (importWarnings (snd (linesToSamples model (pre @ line # post)))) =
           Suc (length (importWarnings (snd (linesToSamples model (pre @ post))))) \<and>
         fst (linesToSamples model (pre @ line # post)) = fst (linesToSamples model (pre @ post))"
  using line_unrecognized[OF assms]
  by (simp add: linesToSamples_closed importWarning_def unrecognizedLine_def)

theorem malformed_line_yields_warning_witness:
  "trim ''1.0 abc 3.0'' \<noteq> [] \<and> \<not> startsWith (trim ''1.0 abc 3.0'') ''#'' \<and>
   exec battorDataLineRE (trim ''1.0 abc 3.0'') = None \<and>
   linesToSamples emptyModel [''1.0 abc 3.0''] =
     ([], emptyModel\<lparr>importWarnings :=
            [\<lparr>type = ''parse_error'', message = ''Unrecognized line in BattOr trace: 1.0 abc 3.0''\<rparr>]\<rparr>)"
proof -
  have t: "trim ''1.0 abc 3.0'' = ''1.0 abc 3.0''"
    by (simp add: trim_def isWhiteSpace_def)
  have h: "trim ''1.0 abc 3.0'' \<noteq> []" "\<not> startsWith (trim ''1.0 abc 3.0'') ''#''"
    "exec battorDataLineRE (trim ''1.0 abc 3.0'') = None"
    unfolding t
    by (simp_all add: startsWith_def exec_def matchAt_def battorDataLineRE_def decimalRE_def
        isDigit_def isWhiteSpace_def)
  from malformed_line_yields_warning[OF h, of emptyModel "[]" "[]"] h t show ?thesis
    by (simp add: importWarning_def unrecognizedLine_def emptyModel_def)
qed

text \<open>
  Claim C3 as stated fails.  The second field of the line below is negative, but the double
  nearest to it is \<open>-0\<close>, which is not less than zero: the line matches the pattern and
  yields a sample, of voltage \<open>-0\<close>, and no warning.
\<close>

theorem negative_field_underflow_counterexample:
  "exec battorDataLineRE (trim tinyNegativeLine) =
     Some [1 \<mapsto> ''1.0'', 2 \<mapsto> tinyNegativeField, 3 \<mapsto> ''500.0'', 0 \<mapsto> tinyNegativeLine] \<and>
   decimalValue tinyNegativeField < 0 \<and>
   linesToSamples emptyModel [tinyNegativeLine] =
     ([\<lparr>ts = Finite False 1, voltage = Finite True 0, current = Finite False (1 / 2),
        syncId = None\<rparr>], emptyModel)"
proof -
  have v: "decimalValue tinyNegativeField < 0"
    by (simp add: decimalValue_def signedValue_def tiny_sign tiny_magnitude)
  have "linesToSamples emptyModel [tinyNegativeLine] =
     ([\<lparr>ts = Finite False 1, voltage = Finite True 0, current = Finite False (1 / 2),
        syncId = None\<rparr>], emptyModel)"
    using tiny_hd
    by (simp add: linesToSamples_def tiny_trim tiny_exec capture_def parseFloat_examples
        tiny_parseFloat numberLiteral_simps roundToDouble_examples signedValue_def newSample_def
        Let_def)
  with v show ?thesis by (simp add: tiny_trim tiny_exec)
qed

text \<open>
  Claim C3, amended.  A line whose trimmed text matches \<open>battorDataLineRE\<close> and whose voltage or
  current, the double that the second or third field divided by 1000 gives, is less than
  zero adds exactly one warning and no sample; the lines before and after it are parsed as
  they would be without it.
\<close>

theorem negative_line_yields_warning:
  assumes "exec battorDataLineRE (trim line) = Some groups"
    and "numLess (numDivide (parseFloat (capture groups 2)) (numberLiteral 1000)) (numberLiteral 0) \<or>
         numLess (numDivide (parseFloat (capture groups 3)) (numberLiteral 1000)) (numberLiteral 0)"
  shows "linesToSamples model [line] = ([], importWarning model (negativeLine (trim line))) \<and>
         linesToSamples model (pre @ line # post) =
           (let (s1, m1) = linesToSamples model pre;
                (s2, m2) = linesToSamples (importWarning m1 (negativeLine (trim line))) post
            in (s1 @ s2, m2)) \<and>
         length (importWarnings (snd (linesToSamples model (pre @ line # post)))) =
           Suc (length (importWarnings (snd (linesToSamples model (pre @ post))))) \<and>
         fst (linesToSamples model (pre @ line # post)) = fst (linesToSamples model (pre @ post))"
  using line_negative[OF assms]
  by (simp add: linesToSamples_closed importWarning_def)

theorem negative_line_yields_warning_witness:
  "exec battorDataLineRE (trim '' 1.0 1000.0 -500.0'') \<noteq> None \<and>
   numLess (numDivide (parseFloat ''-500.0'') (numberLiteral 1000)) (numberLiteral 0) \<and>
   linesToSamples emptyModel ['' 1.0 1000.0 -500.0'', ''0.0 1000.0 500.0''] =
     ([\<lparr>ts = Finite False 0, voltage = Finite False 1, current = Finite False (1 / 2),
        syncId = None\<rparr>],
      importWarning emptyModel (negativeLine ''1.0 1000.0 -500.0''))"
proof -
  let ?g = "[1 \<mapsto> ''1.0'', 2 \<mapsto> ''1000.0'', 3 \<mapsto> ''-500.0'', 0 \<mapsto> ''1.0 1000.0 -500.0'']"
  have t: "trim '' 1.0 1000.0 -500.0'' = ''1.0 1000.0 -500.0''"
    by (simp add: trim_def isWhiteSpace_def)
  have e: "exec battorDataLineRE (trim '' 1.0 1000.0 -500.0'') = Some ?g"
    by (simp add: t exec_negative_line)
  have n: "numLess (numDivide (parseFloat ''-500.0'') (numberLiteral 1000)) (numberLiteral 0)"
    by (simp add: parseFloat_examples numberLiteral_simps roundToDouble_examples signedValue_def)
  then have v:
    "numLess (numDivide (parseFloat (capture ?g 2)) (numberLiteral 1000)) (numberLiteral 0) \<or>
     numLess (numDivide (parseFloat (capture ?g 3)) (numberLiteral 1000)) (numberLiteral 0)"
    by (simp add: capture_def)
  have rest: "linesToSamples m [''0.0 1000.0 500.0''] =
                ([\<lparr>ts = Finite False 0, voltage = Finite False 1, current = Finite False (1 / 2),
                   syncId = None\<rparr>], m)" for m
    by (simp add: linesToSamples_def trim_examples exec_line0 startsWith_def capture_def
        parseFloat_examples numberLiteral_simps roundToDouble_examples signedValue_def
        newSample_def Let_def)
  from negative_line_yields_warning[OF e v, of emptyModel "[]" "[''0.0 1000.0 500.0'']"] e t rest n
  show ?thesis
    by (simp add: linesToSamples_def)
qed

section \<open>Claims about the import phases\<close>

lemma importClockSyncMarkersLoop_closed:
  "importClockSyncMarkersLoop ss m =
     m\<lparr>clockSyncManager := (clockSyncManager m)\<lparr>markers := markers (clockSyncManager m) @
        List.map_filter (\<lambda>s. case syncId s of
                                None \<Rightarrow> None
                              | Some sid \<Rightarrow> if sid \<noteq> [] then Some (BATTOR, sid, ts s) else None) ss\<rparr>\<rparr>"
proof (induction ss arbitrary: m)
  case Nil
  show ?case by (simp add: List.map_filter_simps)
next
  case (Cons s ss)
  show ?case
    by (simp add: Cons.IH List.map_filter_simps addClockSyncMarker_def split: option.splits)
qed

lemma map_filter_cong_set:
  "(\<And>x. x \<in> set xs \<Longrightarrow> f x = g x) \<Longrightarrow> List.map_filter f xs = List.map_filter g xs"
  by (induction xs) (auto simp: List.map_filter_simps split: option.splits)

lemma importEventsLoop_closed:
  "importEventsLoop ss f series =
     series\<lparr>samples := samples series @ map (\<lambda>s. (f (ts s), power' s)) ss\<rparr>"
  by (induction ss arbitrary: series) (simp_all add: addPowerSample_def)

lemma importEvents_None:
  assumes "powerSeries (device (this_model imp)) = None"
  shows "importEvents g imp =
           imp\<lparr>this_model := (this_model imp)\<lparr>device := (device (this_model imp))\<lparr>powerSeries :=
             Some \<lparr>samples = map (\<lambda>s. (g (clockSyncManager (this_model imp)) BATTOR (ts s), power' s))
                                (this_samples imp)\<rparr>\<rparr>\<rparr>\<rparr>"
  using assms by (simp add: importEvents_def Let_def importEventsLoop_closed newPowerSeries_def)

lemma importEvents_Some:
  assumes "powerSeries (device (this_model imp)) = Some series"
  shows "importEvents g imp = imp\<lparr>this_model := importWarning (this_model imp) powerCounterExists\<rparr>"
  using assms by (simp add: importEvents_def Let_def)

text \<open>
  Claim C6.  For the samples parsed from any input, \<open>importClockSyncMarkers\<close> appends to the
  clock-sync manager exactly one marker per sample that has a sync id, in sample order:
  the BattOr domain, the sample's sync id and the sample's own timestamp; samples without
  a sync id add nothing, and the rest of the model and the samples are unchanged.  The input
  \<open>"# BattOr\n0.0 1000.0 500.0\n1.0 1000.0 500.0 <sync1>\n"\<close> registers one marker, for
  \<open>sync1\<close>.
\<close>

theorem importClockSyncMarkers_registers_sync_ids:
  "(let imp = newBattorImporter model events;
        imp' = importClockSyncMarkers imp
    in markers (clockSyncManager (this_model imp')) =
         markers (clockSyncManager (this_model imp)) @
         List.map_filter (\<lambda>s. map_option (\<lambda>sid. (BATTOR, sid, ts s)) (syncId s)) (this_samples imp) \<and>
       device (this_model imp') = device (this_model imp) \<and>
       importWarnings (this_model imp') = importWarnings (this_model imp) \<and>
       this_samples imp' = this_samples imp) \<and>
   markers (clockSyncManager (this_model (importClockSyncMarkers (newBattorImporter emptyModel
      ''# BattOr\<newline>0.0 1000.0 500.0\<newline>1.0 1000.0 500.0 <sync1>\<newline>'')))) =
     [(BATTOR, ''sync1'', Finite False 1)]"
proof -
  define imp where "imp = newBattorImporter model events"
  have ss: "this_samples imp = fst (linesToSamples model (split events CHR 0x0A))"
    by (simp add: imp_def newBattorImporter_def split: prod.splits)
  have eq: "List.map_filter (\<lambda>s. case syncId s of
                                None \<Rightarrow> None
                              | Some sid \<Rightarrow> if sid \<noteq> [] then Some (BATTOR, sid, ts s) else None)
              (this_samples imp) =
            List.map_filter (\<lambda>s. map_option (\<lambda>sid. (BATTOR, sid, ts s)) (syncId s)) (this_samples imp)"
  proof (rule map_filter_cong_set)
    fix s assume "s \<in> set (this_samples imp)"
    then have "syncId s \<noteq> Some []" unfolding ss by (rule linesToSamples_syncId)
    then show "(case syncId s of None \<Rightarrow> None
                | Some sid \<Rightarrow> if sid \<noteq> [] then Some (BATTOR, sid, ts s) else None) =
               map_option (\<lambda>sid. (BATTOR, sid, ts s)) (syncId s)"
      by (cases "syncId s") auto
  qed
  have general: "markers (clockSyncManager (this_model (importClockSyncMarkers imp))) =
         markers (clockSyncManager (this_model imp)) @
         List.map_filter (\<lambda>s. map_option (\<lambda>sid. (BATTOR, sid, ts s)) (syncId s)) (this_samples imp) \<and>
       device (this_model (importClockSyncMarkers imp)) = device (this_model imp) \<and>
       importWarnings (this_model (importClockSyncMarkers imp)) = importWarnings (this_model imp) \<and>
       this_samples (importClockSyncMarkers imp) = this_samples imp"
    by (simp add: importClockSyncMarkers_def importClockSyncMarkersLoop_closed eq)
  have concrete: "markers (clockSyncManager (this_model (importClockSyncMarkers (newBattorImporter emptyModel
      ''# BattOr\<newline>0.0 1000.0 500.0\<newline>1.0 1000.0 500.0 <sync1>\<newline>'')))) =
     [(BATTOR, ''sync1'', Finite False 1)]"
    unfolding end_to_end_parse
    by (simp add: importClockSyncMarkers_def addClockSyncMarker_def emptyModel_def)
  from general concrete show ?thesis by (simp add: imp_def Let_def)
qed

text \<open>
  Claim C7.  When the device has no power series, \<open>importEvents\<close> leaves a series holding one
  power sample per parsed sample, in input order: the timestamp is the BattOr domain's
  transform applied to the sample's timestamp, the value is the sample's power.
\<close>

theorem importEvents_appends_power_samples:
  assumes "powerSeries (device (this_model imp)) = None"
  shows "powerSeries (device (this_model (importEvents getModelTimeTransformer imp))) =
           Some \<lparr>samples = map (\<lambda>sample. (getModelTimeTransformer (clockSyncManager (this_model imp))
                                              BATTOR (ts sample), power' sample))
                               (this_samples imp)\<rparr>"
  by (simp add: importEvents_None[OF assms])

theorem importEvents_appends_power_samples_witness:
  "powerSeries (device (this_model (newBattorImporter emptyModel
      ''# BattOr\<newline>0.0 1000.0 500.0\<newline>1.0 1000.0 500.0 <sync1>\<newline>''))) = None \<and>
   powerSeries (device (this_model (importEvents doublingTransformer (newBattorImporter emptyModel
      ''# BattOr\<newline>0.0 1000.0 500.0\<newline>1.0 1000.0 500.0 <sync1>\<newline>'')))) =
     Some \<lparr>samples = [(Finite False 0, Finite False (1 / 2)),
                      (Finite False 2, Finite False (1 / 2))]\<rparr>"
proof -
  let ?imp = "newBattorImporter emptyModel
      ''# BattOr\<newline>0.0 1000.0 500.0\<newline>1.0 1000.0 500.0 <sync1>\<newline>''"
  have h: "powerSeries (device (this_model ?imp)) = None"
    unfolding end_to_end_parse by (simp add: emptyModel_def)
  from importEvents_appends_power_samples[OF h, of doublingTransformer] h show ?thesis
    unfolding end_to_end_parse
    by (simp add: doublingTransformer_def power'_def numberLiteral_simps roundToDouble_examples)
qed

text \<open>
  Claim C5.  When the device already has a power series, \<open>importEvents\<close> appends exactly one
  warning, of type \<open>import_error\<close>, changes nothing else, and leaves that series as it was.
  It returns normally: the function has no failing outcome.
\<close>

theorem importEvents_conflicting_source:
  assumes "powerSeries (device (this_model imp)) = Some series"
  shows "importWarnings (this_model (importEvents getModelTimeTransformer imp)) =
           importWarnings (this_model imp) @ [powerCounterExists] \<and>
         type powerCounterExists = ''import_error'' \<and>
         powerSeries (device (this_model (importEvents getModelTimeTransformer imp))) = Some series \<and>
         importEvents getModelTimeTransformer imp =
           imp\<lparr>this_model := importWarning (this_model imp) powerCounterExists\<rparr>"
  by (simp add: importEvents_Some[OF assms] importWarning_def assms powerCounterExists_def)

theorem importEvents_conflicting_source_witness:
  "powerSeries (device (this_model (newBattorImporter modelWithPowerSeries ''# BattOr\<newline>0.0 1000.0 500.0''))) =
     Some \<lparr>samples = [(Finite False 0, Finite False 3)]\<rparr> \<and>
   this_model (importEvents identityTransformer
                (newBattorImporter modelWithPowerSeries ''# BattOr\<newline>0.0 1000.0 500.0'')) =
     modelWithPowerSeries\<lparr>importWarnings := [powerCounterExists]\<rparr>"
proof -
  let ?imp = "newBattorImporter modelWithPowerSeries ''# BattOr\<newline>0.0 1000.0 500.0''"
  have p: "?imp = \<lparr>importPriority = 3, this_model = modelWithPowerSeries,
                    this_samples = [\<lparr>ts = Finite False 0, voltage = Finite False 1,
                                     current = Finite False (1 / 2), syncId = None\<rparr>]\<rparr>"
    by (simp add: newBattorImporter_def linesToSamples_def trim_examples exec_line0 startsWith_def
        capture_def parseFloat_examples numberLiteral_simps roundToDouble_examples signedValue_def
        newSample_def Let_def)
  have h: "powerSeries (device (this_model ?imp)) =
             Some \<lparr>samples = [(Finite False 0, Finite False 3)]\<rparr>"
    unfolding p by (simp add: modelWithPowerSeries_def)
  from importEvents_conflicting_source[OF h, of identityTransformer] h show ?thesis
    unfolding p by (simp add: importWarning_def modelWithPowerSeries_def emptyModel_def)
qed


text \<open>
  Claim C10.  When the device has no power series, \<open>importEvents\<close> installs one, empty when
  no sample was parsed; an importer that then runs \<open>importEvents\<close> on that model only records
  the conflicting-source warning.
\<close>

theorem importEvents_installs_series:
  assumes "powerSeries (device (this_model imp)) = None"
  shows "powerSeries (device (this_model (importEvents g imp))) \<noteq> None \<and>
         (this_samples imp = [] \<longrightarrow>
            powerSeries (device (this_model (importEvents g imp))) = Some \<lparr>samples = []\<rparr>) \<and>
         importEvents g' (later\<lparr>this_model := this_model (importEvents g imp)\<rparr>) =
           later\<lparr>this_model := importWarning (this_model (importEvents g imp)) powerCounterExists\<rparr>"
proof -
  have 1: "powerSeries (device (this_model (importEvents g imp))) =
             Some \<lparr>samples = map (\<lambda>s. (g (clockSyncManager (this_model imp)) BATTOR (ts s), power' s))
                                (this_samples imp)\<rparr>"
    by (simp add: importEvents_None[OF assms])
  have "powerSeries (device (this_model (later\<lparr>this_model := this_model (importEvents g imp)\<rparr>))) =
          Some \<lparr>samples = map (\<lambda>s. (g (clockSyncManager (this_model imp)) BATTOR (ts s), power' s))
                                (this_samples imp)\<rparr>"
    using 1 by simp
  from importEvents_Some[OF this, of g'] 1 show ?thesis by simp
qed

theorem importEvents_installs_series_witness:
  "powerSeries (device (this_model (newBattorImporter emptyModel ''# BattOr''))) = None \<and>
   this_samples (newBattorImporter emptyModel ''# BattOr'') = [] \<and>
   powerSeries (device (this_model (importEvents identityTransformer
      (newBattorImporter emptyModel ''# BattOr'')))) = Some \<lparr>samples = []\<rparr> \<and>
   importWarnings (this_model (importEvents identityTransformer (importEvents identityTransformer
      (newBattorImporter emptyModel ''# BattOr'')))) = [powerCounterExists]"
proof -
  let ?imp = "newBattorImporter emptyModel ''# BattOr''"
  have p: "?imp = \<lparr>importPriority = 3, this_model = emptyModel, this_samples = []\<rparr>"
    by (simp add: newBattorImporter_def linesToSamples_def trim_examples startsWith_def Let_def)
  have h: "powerSeries (device (this_model ?imp)) = None"
    unfolding p by (simp add: emptyModel_def)
  have u: "importEvents identityTransformer ?imp
             \<lparr>this_model := this_model (importEvents identityTransformer ?imp)\<rparr> =
           importEvents identityTransformer ?imp"
    by simp
  from importEvents_installs_series[OF h, of identityTransformer identityTransformer
      "importEvents identityTransformer ?imp"] h
  show ?thesis
    unfolding u p by (simp add: importWarning_def importEvents_def emptyModel_def Let_def newPowerSeries_def)
qed

text \<open>
  Claim C8 as stated fails: the importer appends in input order and does not sort.  The
  input below is accepted by \<open>canImport\<close> and parsed without a warning, and its timestamps
  reach the series as 1, 0.
\<close>

theorem importEvents_order_counterexample:
  "canImport (StringPrimitive ''# BattOr\<newline>1.0 1000.0 500.0\<newline>0.0 1000.0 500.0'') () =
     (Inr True, ()) \<and>
   importWarnings (this_model (newBattorImporter emptyModel
      ''# BattOr\<newline>1.0 1000.0 500.0\<newline>0.0 1000.0 500.0'')) = [] \<and>
   seriesTimestamps (importEvents identityTransformer (newBattorImporter emptyModel
      ''# BattOr\<newline>1.0 1000.0 500.0\<newline>0.0 1000.0 500.0'')) = [Finite False 1, Finite False 0] \<and>
   \<not> sorted_wrt numLessEq (seriesTimestamps (importEvents identityTransformer
      (newBattorImporter emptyModel ''# BattOr\<newline>1.0 1000.0 500.0\<newline>0.0 1000.0 500.0'')))"
proof -
  let ?imp = "newBattorImporter emptyModel ''# BattOr\<newline>1.0 1000.0 500.0\<newline>0.0 1000.0 500.0''"
  have e: "exec battorDataLineRE ''1.0 1000.0 500.0'' =
     Some [1 \<mapsto> ''1.0'', 2 \<mapsto> ''1000.0'', 3 \<mapsto> ''500.0'', 0 \<mapsto> ''1.0 1000.0 500.0'']"
    by (simp add: exec_def matchAt_def battorDataLineRE_def decimalRE_def isDigit_def isWhiteSpace_def)
  have p: "?imp = \<lparr>importPriority = 3, this_model = emptyModel,
                    this_samples = [\<lparr>ts = Finite False 1, voltage = Finite False 1,
                                     current = Finite False (1 / 2), syncId = None\<rparr>,
                                    \<lparr>ts = Finite False 0, voltage = Finite False 1,
                                     current = Finite False (1 / 2), syncId = None\<rparr>]\<rparr>"
    by (simp add: newBattorImporter_def linesToSamples_def trim_examples exec_line0 e startsWith_def
        capture_def parseFloat_examples numberLiteral_simps roundToDouble_examples signedValue_def
        newSample_def Let_def)
  have c: "canImport (StringPrimitive ''# BattOr\<newline>1.0 1000.0 500.0\<newline>0.0 1000.0 500.0'') () =
             (Inr True, ())"
    by (simp add: canImport_def test_def exec_def matchAt_def battorHeaderLineRE_def)
  have "seriesTimestamps (importEvents identityTransformer ?imp) = [Finite False 1, Finite False 0]"
    unfolding p
    by (simp add: seriesTimestamps_def importEvents_def emptyModel_def Let_def newPowerSeries_def
        addPowerSample_def identityTransformer_def)
  then show ?thesis using c unfolding p by (simp add: emptyModel_def signedValue_def)
qed

text \<open>
  Claim C8, amended.  The timestamps \<open>importEvents\<close> appends to the power series are, when the
  device had no series, the transformed timestamps of the parsed samples in input order,
  unsorted and with duplicates kept, and none when the device had a series.  The appended
  sequence is therefore non-decreasing whenever the parsed samples' timestamps are
  non-decreasing in input order and the clock transform is monotone.
\<close>

theorem importEvents_timestamps_in_input_order:
  "appendedTimestamps g imp =
     (case powerSeries (device (this_model imp)) of
        None \<Rightarrow> map (\<lambda>sample. g (clockSyncManager (this_model imp)) BATTOR (ts sample))
                  (this_samples imp)
      | Some series \<Rightarrow> []) \<and>
   (sorted_wrt numLessEq (map ts (this_samples imp)) \<longrightarrow>
    (\<forall>a b. numLessEq a b \<longrightarrow>
       numLessEq (g (clockSyncManager (this_model imp)) BATTOR a)
                 (g (clockSyncManager (this_model imp)) BATTOR b)) \<longrightarrow>
    sorted_wrt numLessEq (appendedTimestamps g imp))"
proof -
  let ?f = "g (clockSyncManager (this_model imp)) BATTOR"
  have 1: "appendedTimestamps g imp =
     (case powerSeries (device (this_model imp)) of
        None \<Rightarrow> map (\<lambda>sample. ?f (ts sample)) (this_samples imp)
      | Some series \<Rightarrow> [])"
  proof (cases "powerSeries (device (this_model imp))")
    case None
    then show ?thesis
      by (simp add: appendedTimestamps_def importEvents_None[OF None] seriesTimestamps_def comp_def)
  next
    case (Some series)
    then show ?thesis
      by (simp add: appendedTimestamps_def importEvents_Some[OF Some] seriesTimestamps_def
          importWarning_def)
  qed
  have 2: "sorted_wrt numLessEq (map ?f xs)"
    if "sorted_wrt numLessEq xs" "\<forall>a b. numLessEq a b \<longrightarrow> numLessEq (?f a) (?f b)" for xs
    using that by (induction xs) auto
  show ?thesis
  proof (intro conjI impI)
    show "appendedTimestamps g imp =
     (case powerSeries (device (this_model imp)) of
        None \<Rightarrow> map (\<lambda>sample. ?f (ts sample)) (this_samples imp)
      | Some series \<Rightarrow> [])" by (rule 1)
  next
    assume s: "sorted_wrt numLessEq (map ts (this_samples imp))"
      and m: "\<forall>a b. numLessEq a b \<longrightarrow> numLessEq (?f a) (?f b)"
    from 2[OF s m] show "sorted_wrt numLessEq (appendedTimestamps g imp)"
      unfolding 1 by (cases "powerSeries (device (this_model imp))") (simp_all add: comp_def)
  qed
qed

theorem importEvents_timestamps_in_input_order_witness:
  "sorted_wrt numLessEq (map ts (this_samples (newBattorImporter emptyModel
      ''# BattOr\<newline>0.0 1000.0 500.0\<newline>1.0 1000.0 500.0 <sync1>\<newline>''))) \<and>
   appendedTimestamps identityTransformer (newBattorImporter emptyModel
      ''# BattOr\<newline>0.0 1000.0 500.0\<newline>1.0 1000.0 500.0 <sync1>\<newline>'') =
     [Finite False 0, Finite False 1] \<and>
   sorted_wrt numLessEq (appendedTimestamps identityTransformer (newBattorImporter emptyModel
      ''# BattOr\<newline>0.0 1000.0 500.0\<newline>1.0 1000.0 500.0 <sync1>\<newline>''))"
proof -
  let ?imp = "newBattorImporter emptyModel
      ''# BattOr\<newline>0.0 1000.0 500.0\<newline>1.0 1000.0 500.0 <sync1>\<newline>''"
  have h1: "powerSeries (device (this_model ?imp)) = None"
    unfolding end_to_end_parse by (simp add: emptyModel_def)
  have h2: "sorted_wrt numLessEq (map ts (this_samples ?imp))"
    unfolding end_to_end_parse by (simp add: signedValue_def)
  have h3: "\<forall>a b. numLessEq a b \<longrightarrow>
              numLessEq (identityTransformer (clockSyncManager (this_model ?imp)) BATTOR a)
                        (identityTransformer (clockSyncManager (this_model ?imp)) BATTOR b)"
    by (simp add: identityTransformer_def)
  note t = importEvents_timestamps_in_input_order[of identityTransformer ?imp]
  from t h1 have "appendedTimestamps identityTransformer ?imp =
      map (\<lambda>sample. identityTransformer (clockSyncManager (this_model ?imp)) BATTOR (ts sample))
        (this_samples ?imp)"
    by simp
  then have a: "appendedTimestamps identityTransformer ?imp = [Finite False 0, Finite False 1]"
    unfolding end_to_end_parse by (simp add: identityTransformer_def)
  from t h2 h3 have "sorted_wrt numLessEq (appendedTimestamps identityTransformer ?imp)"
    by blast
  with a h2 show ?thesis by simp
qed

lemma matcher_Lit:
  "matcher (Lit p) (i, s, caps) k =
     (if prefix p s then k (i + length p, drop (length p) s, caps) else None)"
proof (induction p arbitrary: i s rule: Lit.induct)
  case 1
  show ?case by simp
next
  case (2 c)
  show ?case by (cases s) auto
next
  case (3 c d cs)
  show ?case by (cases s) (auto simp: 3)
qed

lemma test_battorHeaderLineRE:
  "test battorHeaderLineRE s = prefix ''# BattOr'' s"
  by (simp add: test_def battorHeaderLineRE_def exec_Bol matchAt_def matcher_Lit del: Lit.simps)

text \<open>
  Claim C9 as stated fails.  An object that inherits from \<open>String.prototype\<close> without being a
  string, such as \<open>Object.create(String.prototype)\<close>, passes \<open>instanceof String\<close>; \<open>test\<close>
  then converts it with \<open>String.prototype.toString\<close>, which throws a TypeError.  A String
  object whose \<open>toString\<close> was replaced runs that function: here one that counts its calls.
\<close>

theorem canImport_throws_counterexample:
  "canImport objectCreateStringPrototype () = (Inl TypeError, ()) \<and>
   canImport countingStringObject 0 = (Inr True, 1)"
  by (simp add: canImport_def objectCreateStringPrototype_def countingStringObject_def
      test_battorHeaderLineRE)

text \<open>
  Claim C9, amended.  For undefined, null, a boolean, a number and a symbol \<open>canImport\<close>
  returns false, and for a primitive string it returns true exactly when the string begins
  with \<open># BattOr\<close>; in both cases it does not throw and leaves the state of the program
  unchanged.  For an object it evaluates \<open>instanceof String\<close> and, when that holds, the
  object's conversion to a string: it throws when one of the two throws, returns false when
  \<open>instanceof\<close> is false, and otherwise returns true exactly when the converted string begins
  with \<open># BattOr\<close>, and the state is changed as those operations change it.  A String object
  with the built-in conversion behaves as its string value does.
\<close>

theorem canImport_by_kind_of_value:
  "canImport Undefined w = (Inr False, w) \<and>
   canImport Null w = (Inr False, w) \<and>
   canImport (Boolean b) w = (Inr False, w) \<and>
   canImport (Number n) w = (Inr False, w) \<and>
   canImport (Symbol d) w = (Inr False, w) \<and>
   canImport (StringPrimitive s) w = (Inr (prefix ''# BattOr'' s), w) \<and>
   canImport (Object instanceofString toStringConversion) w =
     (case instanceofString w of
        (Inl e, w1) \<Rightarrow> (Inl e, w1)
      | (Inr False, w1) \<Rightarrow> (Inr False, w1)
      | (Inr True, w1) \<Rightarrow>
          (case toStringConversion w1 of
             (Inl e, w2) \<Rightarrow> (Inl e, w2)
           | (Inr s', w2) \<Rightarrow> (Inr (prefix ''# BattOr'' s'), w2))) \<and>
   canImport (stringObject s) w = (Inr (prefix ''# BattOr'' s), w)"
  by (simp add: canImport_def stringObject_def test_battorHeaderLineRE
      split: prod.splits sum.splits bool.splits)

section \<open>The long-tasks threshold\<close>

lemma fold_if_filter:
  "fold (\<lambda>x acc. if P x then acc else f x acc) xs acc = fold f (filter (\<lambda>x. \<not> P x) xs) acc"
  by (induction xs arbitrary: acc) simp_all

text \<open>
  Claim C4.  The metric skips a top-level slice only when its duration is below 50, so it
  adds every slice of duration at least 50: a slice of duration exactly 50, which does not
  exceed the threshold, is counted, in the first bin of the histogram on [50, 1000).
\<close>

theorem long_task_threshold_admits_50:
  "iterateLongTopLevelTasksOnThreadInRange thread None cb acc =
     fold cb (filter (\<lambda>slice. 50 \<le> duration slice) (topLevelSlices (sliceGroup thread))) acc \<and>
   longTasksMetric id [] boundaryModel =
     [(''long tasks'',
       \<lparr>numeric_range = \<lparr>range_min = 50, range_max = 1000\<rparr>, underflowBin = 0,
        centralBins = 1 # replicate 49 0, overflowBin = 0\<rparr>)]"
proof -
  have "iterateLongTopLevelTasksOnThreadInRange thread None cb acc =
     fold cb (filter (\<lambda>slice. 50 \<le> duration slice) (topLevelSlices (sliceGroup thread))) acc"
    by (simp add: fold_if_filter LONG_TASK_MS_def not_less)
  moreover have "replicate 50 (0::nat) = 0 # replicate 49 0"
    by (simp add: numeral_eq_Suc)
  then have "longTasksMetric id [] boundaryModel =
     [(''long tasks'',
       \<lparr>numeric_range = \<lparr>range_min = 50, range_max = 1000\<rparr>, underflowBin = 0,
        centralBins = 1 # replicate 49 0, overflowBin = 0\<rparr>)]"
    by (simp add: longTasksMetric_def boundaryModel_def iterateRendererMainThreads_def
        LONG_TASK_NUMERIC_BUILDER_def createLinear_def fromExplicitRange_def build_def add_def
        LONG_TASK_MS_def LONGEST_TASK_MS_def Let_def)
  ultimately show ?thesis by simp
qed

end
